theory Spec2Isabelle
  imports Main "HOL-Library.Word" "HOL-Library.Sublist"
begin

unbundle bit_operations_syntax

section \<open>Configuration loader (golang-webserver/main.go, LoadConfig)\<close>

text \<open>
  \<^verbatim>\<open>type Config struct { Port string; Folder string }\<close>
\<close>

record Config =
  Port :: string
  Folder :: string

text \<open>
  Errors of the \<^verbatim>\<open>os\<close> package, as far as the loader tells them apart:
  \<^verbatim>\<open>os.IsNotExist\<close> is true of a not-exist error only, and false of \<^verbatim>\<open>nil\<close>.
\<close>

datatype os_error = ErrNotExist | ErrPermission | ErrOther string

fun os_IsNotExist :: "os_error option \<Rightarrow> bool" where
  "os_IsNotExist None = False"
| "os_IsNotExist (Some e) = (e = ErrNotExist)"

text \<open>
  What the loader reads from its surroundings: the path of the executable, the
  path functions of \<^verbatim>\<open>path/filepath\<close>, opening a file (its content), the JSON
  decoder of \<^verbatim>\<open>encoding/json\<close> into a \<^verbatim>\<open>Config\<close> (a field the document leaves
  out stays the empty string), and \<^verbatim>\<open>os.Stat\<close> (\<open>None\<close> is a nil error).
\<close>

record os_env =
  os_Executable :: "os_error + string"
  filepath_Dir :: "string \<Rightarrow> string"
  filepath_Join :: "string \<Rightarrow> string \<Rightarrow> string"
  os_Open :: "string \<Rightarrow> os_error + string"
  json_Decode :: "string \<Rightarrow> string + Config"
  os_Stat :: "string \<Rightarrow> os_error option"

text \<open>The errors \<^verbatim>\<open>LoadConfig\<close> builds with \<^verbatim>\<open>fmt.Errorf\<close>, one constructor per message.\<close>

datatype config_error =
    FailedExecutablePath os_error
  | FailedOpenConfig string os_error
  | FailedDecode string
  | PortEmpty
  | FolderEmpty
  | FolderNotExist string

definition LoadConfig :: "os_env \<Rightarrow> string \<Rightarrow> config_error + Config" where
  "LoadConfig env filename =
     (case os_Executable env of
        Inl err \<Rightarrow> Inl (FailedExecutablePath err)
      | Inr exePath \<Rightarrow>
          (let configPath = filepath_Join env (filepath_Dir env exePath) filename in
           case os_Open env configPath of
             Inl err \<Rightarrow> Inl (FailedOpenConfig configPath err)
           | Inr file \<Rightarrow>
               (case json_Decode env file of
                  Inl err \<Rightarrow> Inl (FailedDecode err)
                | Inr config \<Rightarrow>
                    if Port config = [] then Inl PortEmpty
                    else if Folder config = [] then Inl FolderEmpty
                    else if os_IsNotExist (os_Stat env (Folder config))
                      then Inl (FolderNotExist (Folder config))
                    else Inr config)))"

text \<open>A concrete installation, used to run the loader.\<close>

definition demo_config :: Config where
  "demo_config = \<lparr>Port = ''8089'', Folder = ''C:/Images''\<rparr>"




section \<open>HTTP listener and static file responder\<close>

text \<open>\<^verbatim>\<open>time.Duration\<close> counts nanoseconds; \<^verbatim>\<open>time.Second\<close> is \<open>10^9\<close> of them.\<close>

type_synonym Duration = int

definition Second :: Duration where
  "Second = 1000000000"

text \<open>
  Of a request the responder reads \<^verbatim>\<open>r.Method\<close> and \<^verbatim>\<open>r.URL.Path\<close>. What a handler
  does with a request is the list of its effects, in order: a line written with
  \<^verbatim>\<open>log.Printf\<close>, or the file-serving primitive of \<^verbatim>\<open>net/http\<close> answering the
  request from a root directory.
\<close>

record Request =
  Method :: string
  URLPath :: string

datatype effect = LogPrintf string | FileServe string Request

type_synonym Handler = "Request \<Rightarrow> effect list"

text \<open>\<^verbatim>\<open>http.FileServer(http.Dir(root))\<close>: the primitive itself, and nothing else.\<close>

definition http_FileServer :: "string \<Rightarrow> Handler" where
  "http_FileServer root r = [FileServe root r]"

text \<open>
  A \<^verbatim>\<open>ServeMux\<close> is the patterns registered on it, each with its handler.
\<close>

type_synonym ServeMux = "(string \<times> Handler) list"

text \<open>
  \<^verbatim>\<open>http.Server\<close>, with the fields the two variants set. A nil \<^verbatim>\<open>Handler\<close> is
  \<open>None\<close>: the server then dispatches through \<^verbatim>\<open>http.DefaultServeMux\<close>. A timeout
  of zero is no timeout.
\<close>

record Server =
  Addr :: string
  Handler :: "ServeMux option"
  ReadTimeout :: Duration
  WriteTimeout :: Duration
  IdleTimeout :: Duration

text \<open>Service variant: \<^verbatim>\<open>createServer\<close>.\<close>

definition createServer :: "Config \<Rightarrow> Server" where
  "createServer config =
     (let mux = [(''/'', http_FileServer (Folder config))] in
      \<lparr>Addr = '':'' @ Port config,
       Handler = Some mux,
       ReadTimeout = 15 * Second,
       WriteTimeout = 15 * Second,
       IdleTimeout = 60 * Second\<rparr>)"

text \<open>
  Container variant: the closure \<^verbatim>\<open>ServeFiles\<close> registers, which logs the request
  and then hands it to the file server.
\<close>

definition ServeFiles_handler :: "string \<Rightarrow> Handler" where
  "ServeFiles_handler folder r =
     LogPrintf (''Received request: '' @ Method r @ '' '' @ URLPath r) # http_FileServer folder r"

text \<open>
  \<^verbatim>\<open>http.ListenAndServe(addr, handler)\<close> of \<^verbatim>\<open>net/http\<close> serves with
  \<^verbatim>\<open>&Server{Addr: addr, Handler: handler}\<close>: every other field is its zero value.
\<close>

definition http_ListenAndServe :: "string \<Rightarrow> ServeMux option \<Rightarrow> Server" where
  "http_ListenAndServe addr handler =
     \<lparr>Addr = addr, Handler = handler, ReadTimeout = 0, WriteTimeout = 0, IdleTimeout = 0\<rparr>"

text \<open>
  \<^verbatim>\<open>ServeFiles\<close> registers its closure for the pattern \<^verbatim>\<open>/\<close> on the (until then
  empty) default mux and listens with a nil handler. The result is the default
  mux and the server that listens; the line printed before listening and the
  fatal exit when listening fails are not part of it.
\<close>

definition ServeFiles :: "string \<Rightarrow> string \<Rightarrow> ServeMux \<times> Server" where
  "ServeFiles port folder =
     (let DefaultServeMux = [(''/'', ServeFiles_handler folder)] in
      (DefaultServeMux, http_ListenAndServe ('':'' @ port) None))"

text \<open>
  The handler a server holds for a pattern: the one registered on its own mux,
  or on the default mux when its \<^verbatim>\<open>Handler\<close> is nil. Which requests the mux of
  \<^verbatim>\<open>net/http\<close> hands to that handler is the library's matter and not modelled:
  it answers some requests itself, one whose path is not clean with a redirect.
\<close>

definition registered :: "ServeMux \<Rightarrow> Server \<Rightarrow> string \<Rightarrow> Handler option" where
  "registered DefaultServeMux srv pattern =
     map_of (case Handler srv of None \<Rightarrow> DefaultServeMux | Some mux \<Rightarrow> mux) pattern"

section \<open>Service lifecycle adapter (golang-webserver/main.go, Execute)\<close>

text \<open>The states and control commands of \<^verbatim>\<open>golang.org/x/sys/windows/svc\<close>.\<close>

datatype State =
  Stopped | StartPending | StopPending | Running | ContinuePending | PausePending | Paused

datatype Cmd =
  Stop | Pause | Continue | Interrogate | Shutdown | ParamChange | NetBindAdd | NetBindRemove
  | NetBindEnable | NetBindDisable | DeviceEvent | HardwareProfileChange | PowerEvent
  | SessionChange | PreShutdown

type_synonym Accepted = "32 word"

definition AcceptStop :: Accepted where
  "AcceptStop = 1"

definition AcceptShutdown :: Accepted where
  "AcceptShutdown = 4"

record Status =
  State :: State
  Accepts :: Accepted
  CheckPoint :: "32 word"
  WaitHint :: "32 word"

record ChangeRequest =
  Cmd :: Cmd
  CurrentStatus :: Status

text \<open>
  Errors the adapter meets: \<^verbatim>\<open>http.ErrServerClosed\<close> (what \<^verbatim>\<open>ListenAndServe\<close>
  returns after a shutdown), the deadline of a context, any other error by its text.
\<close>

datatype go_error = ErrServerClosed | DeadlineExceeded | Err string

text \<open>
  An event-log message is its format string and the value formatted into it.
  The actions of a run, in order: a status sent on \<^verbatim>\<open>changes\<close>, an event-log
  entry (with its event id), starting the listener goroutine, the sleep, taking
  and releasing \<^verbatim>\<open>runningMux\<close>, the assignment to \<^verbatim>\<open>isRunning\<close>, the call of
  \<^verbatim>\<open>ListenAndServe\<close>, and \<^verbatim>\<open>server.Shutdown\<close> under a context with a timeout.
\<close>

datatype log_msg =
    Text string
  | WithError string go_error
  | WithRequest string ChangeRequest
  | WithPortFolder string string string

datatype action =
    Report Status
  | ElogInfo nat log_msg
  | ElogError nat log_msg
  | Go
  | Sleep Duration
  | Lock
  | Unlock
  | Assign_isRunning bool
  | Call_ListenAndServe
  | Call_Shutdown Duration

record Service =
  server :: Server
  config :: Config
  isRunning :: bool

text \<open>
  What a run of the callback gives: its actions, the service afterwards, and
  the pair \<^verbatim>\<open>(svcSpecificEC, exitCode)\<close> it returned, or \<open>None\<close> while it still
  waits in its \<^verbatim>\<open>select\<close>.
\<close>

record run =
  trace :: "action list"
  final :: Service
  returned :: "(bool \<times> 32 word) option"

definition emit :: "action list \<Rightarrow> run \<Rightarrow> run" where
  "emit acts r = r\<lparr>trace := acts @ trace r\<rparr>"

definition cmdsAccepted :: Accepted where
  "cmdsAccepted = AcceptStop OR AcceptShutdown"

text \<open>
  The listener goroutine. Its first section logs, sets \<^verbatim>\<open>isRunning\<close> under the
  lock and calls \<^verbatim>\<open>ListenAndServe\<close>; when that call returns \<open>err\<close>, the goroutine
  logs and sends \<open>err\<close> on \<^verbatim>\<open>errChan\<close>, unless \<open>err\<close> is \<^verbatim>\<open>http.ErrServerClosed\<close>.
\<close>

definition goroutine_start :: "Service \<Rightarrow> action list \<times> Service" where
  "goroutine_start s =
     ([ElogInfo 1 (WithPortFolder ''Starting HTTP server on port %s serving folder %s''
         (Port (config s)) (Folder (config s))),
       Lock, Assign_isRunning True, Unlock, Call_ListenAndServe],
      s\<lparr>isRunning := True\<rparr>)"

definition goroutine_end :: "go_error \<Rightarrow> action list \<times> go_error option" where
  "goroutine_end err =
     (if err \<noteq> ErrServerClosed
      then ([ElogError 1 (WithError ''HTTP server error: %v'' err)], Some err)
      else ([], None))"

text \<open>
  What is delivered to the service loop, in the order its \<^verbatim>\<open>select\<close> takes it:
  an error the goroutine sent on \<^verbatim>\<open>errChan\<close>, or a change request on \<^verbatim>\<open>r\<close>.
  \<^verbatim>\<open>errChan\<close> is buffered, so an error can wait there while a request is ready
  too; \<^verbatim>\<open>select\<close> then takes either, and the list says which. What stands after
  the event on which the loop returns is never taken.
\<close>

datatype event = FromErrChan go_error | FromR ChangeRequest

text \<open>
  The branch for \<^verbatim>\<open>svc.Stop\<close> and \<^verbatim>\<open>svc.Shutdown\<close>; \<open>sd\<close> is what
  \<^verbatim>\<open>server.Shutdown\<close> returns (\<open>None\<close> is nil).
\<close>

definition stop_shutdown :: "go_error option \<Rightarrow> Service \<Rightarrow> run" where
  "stop_shutdown sd s =
     \<lparr>trace =
        [ElogInfo 1 (Text ''Service stop/shutdown received''),
         Report \<lparr>State = StopPending, Accepts = cmdsAccepted, CheckPoint = 0, WaitHint = 10000\<rparr>,
         Lock, Assign_isRunning False, Unlock,
         Call_Shutdown (5 * Second)]
        @ (case sd of
             None \<Rightarrow> []
           | Some err \<Rightarrow> [ElogError 1 (WithError ''Error during shutdown: %v'' err)])
        @ [ElogInfo 1 (Text ''Service stopped successfully'')],
      final = s\<lparr>isRunning := False\<rparr>,
      returned = Some (False, 0)\<rparr>"

text \<open>
  The service loop. With no event left the callback waits: nothing is returned.
  The goroutine writes its event-log entry for an error before it sends the
  error, so the entry stands before the one the callback writes on taking it;
  the entry for an error that is never taken is not part of the run.
\<close>

fun service_loop :: "go_error option \<Rightarrow> Service \<Rightarrow> event list \<Rightarrow> run" where
  "service_loop sd s [] = \<lparr>trace = [], final = s, returned = None\<rparr>"
| "service_loop sd s (FromErrChan err # es) =
     \<lparr>trace = [ElogError 1 (WithError ''HTTP server error: %v'' err),
               ElogError 1 (WithError ''Server error: %v'' err)],
      final = s, returned = Some (False, 1)\<rparr>"
| "service_loop sd s (FromR c # es) =
     (case Cmd c of
        Interrogate \<Rightarrow>
          emit [ElogInfo 1 (Text ''Service interrogate received''), Report (CurrentStatus c)]
            (service_loop sd s es)
      | Stop \<Rightarrow> stop_shutdown sd s
      | Shutdown \<Rightarrow> stop_shutdown sd s
      | _ \<Rightarrow>
          emit [ElogError 1 (WithRequest ''Unexpected control request: %d'' c)]
            (service_loop sd s es))"

text \<open>
  \<^verbatim>\<open>Execute\<close>. The goroutine's first section runs during the one-second sleep
  of the callback, so its actions stand between \<open>Go\<close> and \<open>Sleep\<close>. The contexts
  and their deferred cancellations have no effect on what is modelled here but
  the timeout handed to \<^verbatim>\<open>server.Shutdown\<close>.
\<close>

definition Execute :: "go_error option \<Rightarrow> Service \<Rightarrow> event list \<Rightarrow> run" where
  "Execute sd s events =
     (case goroutine_start s of (started, s1) \<Rightarrow>
        emit
          ([Report \<lparr>State = StartPending, Accepts = cmdsAccepted, CheckPoint = 0, WaitHint = 10000\<rparr>,
            ElogInfo 1 (Text ''Service Execute started''),
            Go]
           @ started
           @ [Sleep (1 * Second),
              Report \<lparr>State = Running, Accepts = cmdsAccepted, CheckPoint = 0, WaitHint = 0\<rparr>,
              ElogInfo 1 (Text ''Service status set to running'')])
          (service_loop sd s1 events))"

text \<open>A request other than \<^verbatim>\<open>svc.Stop\<close> and \<^verbatim>\<open>svc.Shutdown\<close>: the loop goes on after it.\<close>

definition benign :: "ChangeRequest \<Rightarrow> bool" where
  "benign c = (Cmd c \<noteq> Stop \<and> Cmd c \<noteq> Shutdown)"

text \<open>
  Where the loop stops taking requests it passes over: nothing is left, or the
  next event is an error from \<^verbatim>\<open>errChan\<close> or a \<^verbatim>\<open>Stop\<close> or \<^verbatim>\<open>Shutdown\<close> request.
\<close>

fun ends_loop :: "event list \<Rightarrow> bool" where
  "ends_loop [] = True"
| "ends_loop (FromErrChan err # es) = True"
| "ends_loop (FromR c # es) = (\<not> benign c)"

text \<open>The statuses a run sent on \<^verbatim>\<open>changes\<close>, in order.\<close>

fun reports :: "action list \<Rightarrow> Status list" where
  "reports [] = []"
| "reports (Report st # as) = st # reports as"
| "reports (a # as) = reports as"

text \<open>A run without its event-log entries: what the callback did besides logging.\<close>

fun is_elog :: "action \<Rightarrow> bool" where
  "is_elog (ElogInfo n m) = True"
| "is_elog (ElogError n m) = True"
| "is_elog a = False"

definition without_elog :: "action list \<Rightarrow> action list" where
  "without_elog as = filter (\<lambda>a. \<not> is_elog a) as"

text \<open>The service \<^verbatim>\<open>main\<close> builds from a configuration, and a sample request.\<close>

definition demo_service :: Service where
  "demo_service = \<lparr>server = createServer demo_config, config = demo_config, isRunning = False\<rparr>"

definition demo_request :: "Cmd \<Rightarrow> State \<Rightarrow> ChangeRequest" where
  "demo_request c st =
     \<lparr>Cmd = c,
      CurrentStatus = \<lparr>State = st, Accepts = cmdsAccepted, CheckPoint = 0, WaitHint = 0\<rparr>\<rparr>"

section \<open>Service installer (installService, manage_service.bat install)\<close>

text \<open>
  What the service manager keeps of a registered service: the path of its
  binary and its arguments, the \<^verbatim>\<open>mgr.Config\<close> it was created with, and its
  recovery settings (\<^verbatim>\<open>sc failure\<close>: the reset period in seconds and the actions,
  each with its delay in milliseconds).
\<close>

datatype StartType = StartManual | StartAutomatic | StartDisabled

record mgr_Config =
  StartType :: StartType
  DisplayName :: string
  Description :: string
  ServiceStartName :: string

datatype recovery_action = Restart nat | Run nat | Reboot nat

record registration =
  BinaryPath :: string
  Arguments :: "string list"
  SvcConfig :: mgr_Config
  ResetPeriod :: nat
  FailureActions :: "recovery_action list"

text \<open>
  The part of the system the installer changes: the registered services and
  the event-log sources (each with the event types it supports), by name.
\<close>

record system =
  services :: "string \<rightharpoonup> registration"
  eventlog :: "string \<rightharpoonup> 32 word"

definition eventlog_Error :: "32 word" where
  "eventlog_Error = 1"

definition eventlog_Warning :: "32 word" where
  "eventlog_Warning = 2"

definition eventlog_Info :: "32 word" where
  "eventlog_Info = 4"

text \<open>
  What the installer cannot decide: the path of the executable, whether the
  service manager accepts the connection and the new service, and whether the
  registry lets the event-log source be removed and written.
\<close>

record mgr_env =
  exe_path :: "os_error + string"
  connect_error :: "os_error option"
  create_error :: "os_error option"
  remove_denied :: bool
  install_denied :: bool

text \<open>\<^verbatim>\<open>strings.Contains\<close>.\<close>

fun strings_Contains :: "string \<Rightarrow> string \<Rightarrow> bool" where
  "strings_Contains [] substr = (substr = [])"
| "strings_Contains (x # xs) substr = (prefix substr (x # xs) \<or> strings_Contains xs substr)"

text \<open>
  \<^verbatim>\<open>eventlog.Remove\<close> deletes the source's registry key, and fails when it is
  not there; \<^verbatim>\<open>eventlog.InstallAsEventCreate\<close> creates the key, and fails with
  \<^verbatim>\<open>... registry key already exists\<close> when it is there. \<open>None\<close> is a nil error.
\<close>

definition addKeyName :: string where
  "addKeyName = ''SYSTEM'' @ [CHR 0x5C] @ ''CurrentControlSet'' @ [CHR 0x5C] @ ''Services''
     @ [CHR 0x5C] @ ''EventLog'' @ [CHR 0x5C] @ ''Application''"

definition already_exists :: "string \<Rightarrow> string" where
  "already_exists src = addKeyName @ [CHR 0x5C] @ src @ '' registry key already exists''"

definition eventlog_Remove :: "bool \<Rightarrow> string \<Rightarrow> system \<Rightarrow> string option \<times> system" where
  "eventlog_Remove denied src sys =
     (if denied then (Some ''Access is denied.'', sys)
      else if eventlog sys src = None
        then (Some ''The system cannot find the file specified.'', sys)
      else (None, sys\<lparr>eventlog := (eventlog sys)(src := None)\<rparr>))"

definition eventlog_InstallAsEventCreate ::
  "bool \<Rightarrow> string \<Rightarrow> 32 word \<Rightarrow> system \<Rightarrow> string option \<times> system" where
  "eventlog_InstallAsEventCreate denied src eventsSupported sys =
     (if denied then (Some ''Access is denied.'', sys)
      else if eventlog sys src \<noteq> None
        then (Some (already_exists src), sys)
      else (None, sys\<lparr>eventlog := (eventlog sys)(src \<mapsto> eventsSupported)\<rparr>))"

text \<open>The errors \<^verbatim>\<open>installService\<close> returns, one constructor per message.\<close>

datatype install_error =
    FailedExecutable os_error
  | FailedConnect os_error
  | ServiceAlreadyExists
  | FailedCreateService os_error
  | FailedInstallEventLogger string

text \<open>The registration \<^verbatim>\<open>mgr.CreateService\<close> gets from \<^verbatim>\<open>installService\<close>.\<close>

definition new_registration :: "string \<Rightarrow> registration" where
  "new_registration exePath =
     \<lparr>BinaryPath = exePath, Arguments = [''service''],
      SvcConfig = \<lparr>StartType = StartAutomatic, DisplayName = ''Image Server'',
        Description = ''A simple image-serving web server.'',
        ServiceStartName = ''LocalSystem''\<rparr>,
      ResetPeriod = 0, FailureActions = []\<rparr>"

text \<open>The calls the installer makes on the system, in order.\<close>

datatype os_call =
    Call_eventlog_Remove string
  | Call_os_Executable
  | Call_mgr_Connect
  | Call_OpenService string
  | Call_CreateService string string mgr_Config "string list"
  | Call_InstallAsEventCreate string "32 word"
  | Call_Delete
  | Call_Close
  | Call_Disconnect

record install_run =
  install_error :: "install_error option"
  install_system :: system
  install_calls :: "os_call list"

text \<open>
  \<^verbatim>\<open>installService\<close>. The deferred \<^verbatim>\<open>m.Disconnect()\<close> and \<^verbatim>\<open>s.Close()\<close> run
  when the function returns, the later deferred first.
\<close>

definition installService :: "mgr_env \<Rightarrow> system \<Rightarrow> install_run" where
  "installService env sys0 =
     (case eventlog_Remove (remove_denied env) ''ImageServer'' sys0 of (ignored, sys1) \<Rightarrow>
      let calls1 = [Call_eventlog_Remove ''ImageServer'', Call_os_Executable] in
      case exe_path env of
        Inl e \<Rightarrow>
          \<lparr>install_error = Some (FailedExecutable e), install_system = sys1,
           install_calls = calls1\<rparr>
      | Inr exePath \<Rightarrow>
          (case connect_error env of
             Some e \<Rightarrow>
               \<lparr>install_error = Some (FailedConnect e), install_system = sys1,
                install_calls = calls1 @ [Call_mgr_Connect]\<rparr>
           | None \<Rightarrow>
               let calls2 = calls1 @ [Call_mgr_Connect, Call_OpenService ''ImageServer''] in
               if services sys1 ''ImageServer'' \<noteq> None
               then
                 \<lparr>install_error = Some ServiceAlreadyExists, install_system = sys1,
                  install_calls = calls2 @ [Call_Close, Call_Disconnect]\<rparr>
               else
                 let cfg = \<lparr>StartType = StartAutomatic,
                            DisplayName = ''Image Server'',
                            Description = ''A simple image-serving web server.'',
                            ServiceStartName = ''LocalSystem''\<rparr>;
                     calls3 = calls2 @
                       [Call_CreateService ''ImageServer'' exePath cfg [''service'']]
                 in
                 (case create_error env of
                    Some e \<Rightarrow>
                      \<lparr>install_error = Some (FailedCreateService e), install_system = sys1,
                       install_calls = calls3 @ [Call_Disconnect]\<rparr>
                  | None \<Rightarrow>
                      let sys2 = sys1\<lparr>services := (services sys1)(''ImageServer'' \<mapsto>
                                   \<lparr>BinaryPath = exePath, Arguments = [''service''],
                                    SvcConfig = cfg, ResetPeriod = 0, FailureActions = []\<rparr>)\<rparr>;
                          eventsSupported = eventlog_Error OR eventlog_Warning OR eventlog_Info;
                          calls4 = calls3 @
                            [Call_InstallAsEventCreate ''ImageServer'' eventsSupported]
                      in
                      (case eventlog_InstallAsEventCreate (install_denied env) ''ImageServer''
                              eventsSupported sys2 of
                         (None, sys3) \<Rightarrow>
                           \<lparr>install_error = None, install_system = sys3,
                            install_calls = calls4 @ [Call_Close, Call_Disconnect]\<rparr>
                       | (Some msg, sys3) \<Rightarrow>
                           if \<not> strings_Contains msg ''registry key already exists''
                           then
                             \<lparr>install_error = Some (FailedInstallEventLogger msg),
                              install_system =
                                sys3\<lparr>services := (services sys3)(''ImageServer'' := None)\<rparr>,
                              install_calls = calls4 @ [Call_Delete, Call_Close, Call_Disconnect]\<rparr>
                           else
                             \<lparr>install_error = None, install_system = sys3,
                              install_calls = calls4 @ [Call_Close, Call_Disconnect]\<rparr>))))"

text \<open>
  \<^verbatim>\<open>main\<close> with the argument \<^verbatim>\<open>install\<close>: \<^verbatim>\<open>log.Fatal\<close> ends the process with
  status 1, a nil error lets it end with status 0.
\<close>

definition main_install :: "mgr_env \<Rightarrow> system \<Rightarrow> nat \<times> system" where
  "main_install env sys =
     (let r = installService env sys in
      (case install_error r of Some e \<Rightarrow> 1 | None \<Rightarrow> 0, install_system r))"

text \<open>
  \<^verbatim>\<open>sc config NAME start= auto\<close> and \<^verbatim>\<open>sc failure NAME reset= N actions= ...\<close>
  change a registered service, and nothing when the name is not registered.
\<close>

definition sc_config_start :: "string \<Rightarrow> StartType \<Rightarrow> system \<Rightarrow> system" where
  "sc_config_start name st sys =
     (case services sys name of
        None \<Rightarrow> sys
      | Some reg \<Rightarrow>
          sys\<lparr>services := (services sys)(name \<mapsto> reg\<lparr>SvcConfig := (SvcConfig reg)\<lparr>StartType := st\<rparr>\<rparr>)\<rparr>)"

definition sc_failure :: "string \<Rightarrow> nat \<Rightarrow> recovery_action list \<Rightarrow> system \<Rightarrow> system" where
  "sc_failure name reset actions sys =
     (case services sys name of
        None \<Rightarrow> sys
      | Some reg \<Rightarrow>
          sys\<lparr>services := (services sys)(name \<mapsto> reg\<lparr>ResetPeriod := reset, FailureActions := actions\<rparr>)\<rparr>)"

text \<open>
  The \<^verbatim>\<open>install\<close> command of \<^verbatim>\<open>manage_service.bat\<close>: it runs the executable with
  \<^verbatim>\<open>install\<close> and, when that ends with status 0, configures the service.
\<close>

definition manage_service_install :: "mgr_env \<Rightarrow> system \<Rightarrow> nat \<times> system" where
  "manage_service_install env sys =
     (case main_install env sys of (errorLevel, sys1) \<Rightarrow>
        if errorLevel = 0
        then (errorLevel,
              sc_failure ''ImageServer'' 86400 [Restart 60000, Restart 60000, Restart 60000]
                (sc_config_start ''ImageServer'' StartAutomatic sys1))
        else (errorLevel, sys1))"

text \<open>A machine with nothing registered, one where all goes well, and a registration.\<close>

definition empty_system :: system where
  "empty_system = \<lparr>services = Map.empty, eventlog = Map.empty\<rparr>"

definition fair_env :: mgr_env where
  "fair_env = \<lparr>exe_path = Inr ''C:/srv/image_server.exe'', connect_error = None,
     create_error = None, remove_denied = False, install_denied = False\<rparr>"

definition old_registration :: registration where
  "old_registration = \<lparr>BinaryPath = ''C:/old/image_server.exe'', Arguments = [''service''],
     SvcConfig = \<lparr>StartType = StartManual, DisplayName = ''Image Server'',
       Description = ''old'', ServiceStartName = ''LocalSystem''\<rparr>,
     ResetPeriod = 0, FailureActions = []\<rparr>"

definition installed_system :: system where
  "installed_system =
     \<lparr>services = [''ImageServer'' \<mapsto> old_registration], eventlog = [''ImageServer'' \<mapsto> 7]\<rparr>"

section \<open>Configuration loader: results\<close>

text \<open>
  What \<^verbatim>\<open>LoadConfig\<close> returns, with the executable's path known and \<open>configPath\<close>
  the file beside it. A file that opens and decodes to a configuration with a
  non-empty port and folder and a folder \<^verbatim>\<open>os.Stat\<close> finds is returned as
  decoded; a file that cannot be opened, content that does not decode, an empty
  port, an empty folder and a folder \<^verbatim>\<open>os.Stat\<close> reports as not existing each
  give their error. A configuration is returned exactly when the file opens and
  decodes to it, port and folder are not empty and \<^verbatim>\<open>os.Stat\<close> does not answer
  with a not-exist error: any other error of \<^verbatim>\<open>os.Stat\<close> lets the folder pass.
\<close>

lemma LoadConfig_cases:
  assumes "os_Executable env = Inr exePath"
    and "configPath = filepath_Join env (filepath_Dir env exePath) filename"
  shows
    "(\<forall>file cfg.
        os_Open env configPath = Inr file \<and> json_Decode env file = Inr cfg \<and>
        Port cfg \<noteq> [] \<and> Folder cfg \<noteq> [] \<and> os_Stat env (Folder cfg) = None
        \<longrightarrow> LoadConfig env filename = Inr cfg) \<and>
     (\<forall>e. os_Open env configPath = Inl e
        \<longrightarrow> LoadConfig env filename = Inl (FailedOpenConfig configPath e)) \<and>
     (\<forall>file e. os_Open env configPath = Inr file \<and> json_Decode env file = Inl e
        \<longrightarrow> LoadConfig env filename = Inl (FailedDecode e)) \<and>
     (\<forall>file cfg. os_Open env configPath = Inr file \<and> json_Decode env file = Inr cfg \<and>
        Port cfg = []
        \<longrightarrow> LoadConfig env filename = Inl PortEmpty) \<and>
     (\<forall>file cfg. os_Open env configPath = Inr file \<and> json_Decode env file = Inr cfg \<and>
        Port cfg \<noteq> [] \<and> Folder cfg = []
        \<longrightarrow> LoadConfig env filename = Inl FolderEmpty) \<and>
     (\<forall>file cfg. os_Open env configPath = Inr file \<and> json_Decode env file = Inr cfg \<and>
        Port cfg \<noteq> [] \<and> Folder cfg \<noteq> [] \<and> os_Stat env (Folder cfg) = Some ErrNotExist
        \<longrightarrow> LoadConfig env filename = Inl (FolderNotExist (Folder cfg))) \<and>
     (\<forall>cfg. LoadConfig env filename = Inr cfg \<longleftrightarrow>
        (\<exists>file. os_Open env configPath = Inr file \<and> json_Decode env file = Inr cfg \<and>
           Port cfg \<noteq> [] \<and> Folder cfg \<noteq> [] \<and>
           os_Stat env (Folder cfg) \<noteq> Some ErrNotExist))"
proof -
  have run: "LoadConfig env filename =
      (case os_Open env configPath of
         Inl e \<Rightarrow> Inl (FailedOpenConfig configPath e)
       | Inr file \<Rightarrow>
           (case json_Decode env file of
              Inl e \<Rightarrow> Inl (FailedDecode e)
            | Inr cfg \<Rightarrow>
                if Port cfg = [] then Inl PortEmpty
                else if Folder cfg = [] then Inl FolderEmpty
                else if os_IsNotExist (os_Stat env (Folder cfg))
                  then Inl (FolderNotExist (Folder cfg))
                else Inr cfg))"
    using assms by (simp add: LoadConfig_def Let_def split: sum.splits)
  have stat: "os_IsNotExist r \<longleftrightarrow> r = Some ErrNotExist" for r
    by (cases r) auto
  show ?thesis
    unfolding run stat by (auto split: sum.splits)
qed


section \<open>Service lifecycle adapter: results\<close>

subsection \<open>The statuses and the result of a run\<close>

lemma reports_append: "reports (xs @ ys) = reports xs @ reports ys"
  by (induction xs rule: reports.induct) auto

lemma service_loop_FromR:
  "service_loop sd s (FromR c # es) =
     (if Cmd c = Stop \<or> Cmd c = Shutdown then stop_shutdown sd s
      else if Cmd c = Interrogate
        then emit [ElogInfo 1 (Text ''Service interrogate received''), Report (CurrentStatus c)]
               (service_loop sd s es)
      else emit [ElogError 1 (WithRequest ''Unexpected control request: %d'' c)]
               (service_loop sd s es))"
  by (cases "Cmd c") simp_all

lemma reports_stop_shutdown:
  "reports (trace (stop_shutdown sd s)) =
     [\<lparr>State = StopPending, Accepts = cmdsAccepted, CheckPoint = 0, WaitHint = 10000\<rparr>]"
  by (cases sd) (simp_all add: stop_shutdown_def)

lemma returned_stop_shutdown: "returned (stop_shutdown sd s) = Some (False, 0)"
  by (simp add: stop_shutdown_def)

lemma final_stop_shutdown: "final (stop_shutdown sd s) = s\<lparr>isRunning := False\<rparr>"
  by (simp add: stop_shutdown_def)

lemma reports_Execute:
  "reports (trace (Execute sd s events)) =
     [\<lparr>State = StartPending, Accepts = cmdsAccepted, CheckPoint = 0, WaitHint = 10000\<rparr>,
      \<lparr>State = Running, Accepts = cmdsAccepted, CheckPoint = 0, WaitHint = 0\<rparr>]
     @ reports (trace (service_loop sd (s\<lparr>isRunning := True\<rparr>) events))"
  by (simp add: Execute_def goroutine_start_def emit_def reports_append)

lemma returned_Execute:
  "returned (Execute sd s events) = returned (service_loop sd (s\<lparr>isRunning := True\<rparr>) events)"
  by (simp add: Execute_def goroutine_start_def emit_def)

lemma final_Execute:
  "final (Execute sd s events) = final (service_loop sd (s\<lparr>isRunning := True\<rparr>) events)"
  by (simp add: Execute_def goroutine_start_def emit_def)

lemma loop_returned_zero:
  "returned (service_loop sd s evs) = Some (False, 0) \<longleftrightarrow>
     (\<exists>cs c es. evs = map FromR cs @ FromR c # es \<and> list_all benign cs \<and> \<not> benign c)"
proof (induction evs)
  case Nil
  then show ?case by simp
next
  case (Cons e evs)
  show ?case
  proof (cases e)
    case (FromErrChan err)
    have "\<not> (\<exists>cs c es. FromErrChan err # evs = map FromR cs @ FromR c # es \<and> list_all benign cs \<and> \<not> benign c)"
    proof
      assume "\<exists>cs c es. FromErrChan err # evs = map FromR cs @ FromR c # es \<and> list_all benign cs \<and> \<not> benign c"
      then obtain cs c es where d: "FromErrChan err # evs = map FromR cs @ FromR c # es" by blast
      then show False by (cases cs) auto
    qed
    then show ?thesis using FromErrChan by simp
  next
    case (FromR c)
    show ?thesis
    proof (cases "benign c")
      case False
      then have "returned (service_loop sd s (e # evs)) = Some (False, 0)"
        unfolding FromR service_loop_FromR by (auto simp: benign_def returned_stop_shutdown)
      moreover have "e # evs = map FromR [] @ FromR c # evs \<and> list_all benign [] \<and> \<not> benign c"
        using False FromR by simp
      ultimately show ?thesis by blast
    next
      case True
      then have step: "returned (service_loop sd s (e # evs)) = returned (service_loop sd s evs)"
        unfolding FromR service_loop_FromR by (auto simp: benign_def emit_def)
      have "(\<exists>cs c' es. e # evs = map FromR cs @ FromR c' # es \<and> list_all benign cs \<and> \<not> benign c')
          \<longleftrightarrow> (\<exists>cs c' es. evs = map FromR cs @ FromR c' # es \<and> list_all benign cs \<and> \<not> benign c')"
      proof
        assume "\<exists>cs c' es. e # evs = map FromR cs @ FromR c' # es \<and> list_all benign cs \<and> \<not> benign c'"
        then obtain cs c' es where d: "e # evs = map FromR cs @ FromR c' # es"
          "list_all benign cs" "\<not> benign c'" by blast
        show "\<exists>cs c' es. evs = map FromR cs @ FromR c' # es \<and> list_all benign cs \<and> \<not> benign c'"
        proof (cases cs)
          case Nil
          with d FromR True show ?thesis by simp
        next
          case (Cons a as)
          with d have "evs = map FromR as @ FromR c' # es" "list_all benign as" by simp_all
          with d(3) show ?thesis by blast
        qed
      next
        assume "\<exists>cs c' es. evs = map FromR cs @ FromR c' # es \<and> list_all benign cs \<and> \<not> benign c'"
        then obtain cs c' es where d: "evs = map FromR cs @ FromR c' # es"
          "list_all benign cs" "\<not> benign c'" by blast
        then have "e # evs = map FromR (c # cs) @ FromR c' # es \<and> list_all benign (c # cs) \<and> \<not> benign c'"
          using FromR True by simp
        then show "\<exists>cs c' es. e # evs = map FromR cs @ FromR c' # es \<and> list_all benign cs \<and> \<not> benign c'"
          by blast
      qed
      with step Cons.IH show ?thesis by simp
    qed
  qed
qed

subsection \<open>Requests the loop passes over\<close>

lemma without_elog_append: "without_elog (xs @ ys) = without_elog xs @ without_elog ys"
  by (simp add: without_elog_def)

lemma loop_benign_step:
  assumes "benign c"
  shows "\<exists>acts. service_loop sd s (FromR c # es) = emit acts (service_loop sd s es) \<and>
           without_elog acts = (if Cmd c = Interrogate then [Report (CurrentStatus c)] else [])"
proof (cases "Cmd c = Interrogate")
  case True
  have "service_loop sd s (FromR c # es) =
      emit [ElogInfo 1 (Text ''Service interrogate received''), Report (CurrentStatus c)]
        (service_loop sd s es)"
    unfolding service_loop_FromR using True by simp
  moreover have "without_elog [ElogInfo 1 (Text ''Service interrogate received''),
      Report (CurrentStatus c)] = [Report (CurrentStatus c)]"
    by (simp add: without_elog_def)
  ultimately show ?thesis using True by auto
next
  case False
  have "service_loop sd s (FromR c # es) =
      emit [ElogError 1 (WithRequest ''Unexpected control request: %d'' c)] (service_loop sd s es)"
    unfolding service_loop_FromR using False assms by (simp add: benign_def)
  moreover have "without_elog [ElogError 1 (WithRequest ''Unexpected control request: %d'' c)] = []"
    by (simp add: without_elog_def)
  ultimately show ?thesis using False by auto
qed

lemma emit_emit: "emit xs (emit ys r) = emit (xs @ ys) r"
  by (simp add: emit_def)

lemma loop_benign_prefix:
  assumes "list_all benign cs"
  shows "\<exists>acts. service_loop sd s (map FromR cs @ es) = emit acts (service_loop sd s es) \<and>
           without_elog acts =
             map (\<lambda>c. Report (CurrentStatus c)) (filter (\<lambda>c. Cmd c = Interrogate) cs)"
  using assms
proof (induction cs)
  case Nil
  show ?case by (intro exI[of _ "[]"]) (simp add: emit_def without_elog_def)
next
  case (Cons c cs)
  then obtain acts where
    a: "service_loop sd s (map FromR cs @ es) = emit acts (service_loop sd s es)"
       "without_elog acts =
          map (\<lambda>c. Report (CurrentStatus c)) (filter (\<lambda>c. Cmd c = Interrogate) cs)"
    by auto
  from Cons.prems have "benign c" by simp
  from loop_benign_step [OF this, of sd s "map FromR cs @ es"] obtain acts0 where
    b: "service_loop sd s (FromR c # map FromR cs @ es) = emit acts0 (service_loop sd s (map FromR cs @ es))"
       "without_elog acts0 = (if Cmd c = Interrogate then [Report (CurrentStatus c)] else [])"
    by blast
  have "service_loop sd s (map FromR (c # cs) @ es) = emit (acts0 @ acts) (service_loop sd s es)"
    using a(1) b(1) by (simp only: list.map append_Cons emit_emit)
  moreover have "without_elog (acts0 @ acts) =
      map (\<lambda>c. Report (CurrentStatus c)) (filter (\<lambda>c. Cmd c = Interrogate) (c # cs))"
    using a(2) b(2) by (simp add: without_elog_append)
  ultimately show ?case by blast
qed

lemma trace_emit: "trace (emit acts r) = acts @ trace r"
  and final_emit: "final (emit acts r) = final r"
  and returned_emit: "returned (emit acts r) = returned r"
  by (simp_all add: emit_def)

lemma reports_without_elog: "reports (without_elog as) = reports as"
  by (induction as rule: reports.induct) (simp_all add: without_elog_def)

lemma reports_map_Report: "reports (map (\<lambda>c. Report (f c)) cs) = map f cs"
  by (induction cs) simp_all

lemma interrogate_benign: "Cmd c = Interrogate \<Longrightarrow> benign c"
  by (simp add: benign_def)

lemma loop_benign_reports:
  assumes "list_all benign cs"
  shows "\<exists>acts. service_loop sd s (map FromR cs @ rest) = emit acts (service_loop sd s rest) \<and>
           reports acts = map CurrentStatus (filter (\<lambda>c. Cmd c = Interrogate) cs) \<and>
           without_elog acts =
             map (\<lambda>c. Report (CurrentStatus c)) (filter (\<lambda>c. Cmd c = Interrogate) cs)"
proof -
  from loop_benign_prefix [OF assms, of sd s rest] obtain acts where
    a: "service_loop sd s (map FromR cs @ rest) = emit acts (service_loop sd s rest)"
       "without_elog acts =
          map (\<lambda>c. Report (CurrentStatus c)) (filter (\<lambda>c. Cmd c = Interrogate) cs)"
    by blast
  have "reports acts = map CurrentStatus (filter (\<lambda>c. Cmd c = Interrogate) cs)"
    using a(2) reports_without_elog [of acts] by (simp add: reports_map_Report)
  with a show ?thesis by blast
qed

lemma decompose_events:
  "\<exists>cs rest. events = map FromR cs @ rest \<and> list_all benign cs \<and> ends_loop rest"
proof (induction events)
  case Nil
  have "[] = map FromR [] @ [] \<and> list_all benign [] \<and> ends_loop []" by simp
  then show ?case by blast
next
  case (Cons e events)
  then obtain cs rest where d: "events = map FromR cs @ rest" "list_all benign cs" "ends_loop rest"
    by blast
  show ?case
  proof (cases e)
    case (FromErrChan err)
    then have "e # events = map FromR [] @ (e # events) \<and> list_all benign [] \<and> ends_loop (e # events)"
      by simp
    then show ?thesis by blast
  next
    case (FromR c)
    show ?thesis
    proof (cases "benign c")
      case True
      with d FromR have "e # events = map FromR (c # cs) @ rest \<and> list_all benign (c # cs) \<and> ends_loop rest"
        by simp
      then show ?thesis by blast
    next
      case False
      with FromR have "e # events = map FromR [] @ (e # events) \<and> list_all benign [] \<and> ends_loop (e # events)"
        by simp
      then show ?thesis by blast
    qed
  qed
qed

lemma Execute_benign_prefix:
  assumes "list_all benign cs"
  shows "reports (trace (Execute sd s (map FromR cs @ rest))) =
           [\<lparr>State = StartPending, Accepts = cmdsAccepted, CheckPoint = 0, WaitHint = 10000\<rparr>,
            \<lparr>State = Running, Accepts = cmdsAccepted, CheckPoint = 0, WaitHint = 0\<rparr>]
           @ map CurrentStatus (filter (\<lambda>c. Cmd c = Interrogate) cs)
           @ reports (trace (service_loop sd (s\<lparr>isRunning := True\<rparr>) rest))"
    and "returned (Execute sd s (map FromR cs @ rest)) =
           returned (service_loop sd (s\<lparr>isRunning := True\<rparr>) rest)"
    and "final (Execute sd s (map FromR cs @ rest)) =
           final (service_loop sd (s\<lparr>isRunning := True\<rparr>) rest)"
proof -
  from loop_benign_reports [OF assms, of sd "s\<lparr>isRunning := True\<rparr>" rest] obtain acts where
    a: "service_loop sd (s\<lparr>isRunning := True\<rparr>) (map FromR cs @ rest) =
          emit acts (service_loop sd (s\<lparr>isRunning := True\<rparr>) rest)"
       "reports acts = map CurrentStatus (filter (\<lambda>c. Cmd c = Interrogate) cs)"
    by blast
  show "reports (trace (Execute sd s (map FromR cs @ rest))) =
           [\<lparr>State = StartPending, Accepts = cmdsAccepted, CheckPoint = 0, WaitHint = 10000\<rparr>,
            \<lparr>State = Running, Accepts = cmdsAccepted, CheckPoint = 0, WaitHint = 0\<rparr>]
           @ map CurrentStatus (filter (\<lambda>c. Cmd c = Interrogate) cs)
           @ reports (trace (service_loop sd (s\<lparr>isRunning := True\<rparr>) rest))"
    unfolding reports_Execute a(1) by (simp add: trace_emit reports_append a(2))
  show "returned (Execute sd s (map FromR cs @ rest)) =
           returned (service_loop sd (s\<lparr>isRunning := True\<rparr>) rest)"
    unfolding returned_Execute a(1) by (simp add: returned_emit)
  show "final (Execute sd s (map FromR cs @ rest)) =
           final (service_loop sd (s\<lparr>isRunning := True\<rparr>) rest)"
    unfolding final_Execute a(1) by (simp add: final_emit)
qed

lemma ends_loop_cases:
  assumes "ends_loop rest"
  obtains (waits) "rest = []"
    | (error) e es where "rest = FromErrChan e # es"
    | (stop) c es where "rest = FromR c # es" "\<not> benign c"
proof (cases rest)
  case Nil
  then show ?thesis by (rule waits)
next
  case (Cons x xs)
  show ?thesis
  proof (cases x)
    case (FromErrChan e)
    with Cons show ?thesis by (auto intro: error)
  next
    case (FromR c)
    with Cons assms show ?thesis by (auto intro: stop)
  qed
qed

lemma loop_stop: 
  "\<not> benign c \<Longrightarrow> service_loop sd s (FromR c # es) = stop_shutdown sd s"
  unfolding service_loop_FromR by (auto simp: benign_def)

subsection \<open>Order of the reported statuses\<close>

text \<open>
  C1, as the code has it. Every run takes some requests it passes over and then
  waits, or takes an error from \<^verbatim>\<open>errChan\<close>, or takes a \<^verbatim>\<open>Stop\<close> or \<^verbatim>\<open>Shutdown\<close>
  request. The statuses \<^verbatim>\<open>Execute\<close> sends are \<open>StartPending\<close>, then \<open>Running\<close>,
  then, for each \<^verbatim>\<open>Interrogate\<close> among the requests passed over and in their
  order, the status that request carries, and last \<open>StopPending\<close> exactly when
  the callback returned \<open>(false, 0)\<close>, which it does exactly when it took a
  \<^verbatim>\<open>Stop\<close> or \<^verbatim>\<open>Shutdown\<close> request; on an error from \<^verbatim>\<open>errChan\<close> it returns
  \<open>(false, 1)\<close> and has sent no \<open>StopPending\<close> of its own. Nothing is sent after
  \<open>StopPending\<close>. A status \<open>Stopped\<close> is sent only as the echo of an
  \<^verbatim>\<open>Interrogate\<close> request that carries it.
\<close>

theorem Execute_report_order:
  "(\<exists>cs rest. events = map FromR cs @ rest \<and> list_all benign cs \<and> ends_loop rest) \<and>
   (\<forall>cs rest. events = map FromR cs @ rest \<and> list_all benign cs \<and> ends_loop rest \<longrightarrow>
      reports (trace (Execute sd s events)) =
        [\<lparr>State = StartPending, Accepts = cmdsAccepted, CheckPoint = 0, WaitHint = 10000\<rparr>,
         \<lparr>State = Running, Accepts = cmdsAccepted, CheckPoint = 0, WaitHint = 0\<rparr>]
        @ map CurrentStatus (filter (\<lambda>c. Cmd c = Interrogate) cs)
        @ (if returned (Execute sd s events) = Some (False, 0)
           then [\<lparr>State = StopPending, Accepts = cmdsAccepted, CheckPoint = 0, WaitHint = 10000\<rparr>]
           else []) \<and>
      (rest = [] \<longrightarrow> returned (Execute sd s events) = None) \<and>
      (\<forall>e es. rest = FromErrChan e # es \<longrightarrow> returned (Execute sd s events) = Some (False, 1)) \<and>
      (\<forall>c es. rest = FromR c # es \<longrightarrow> returned (Execute sd s events) = Some (False, 0)) \<and>
      (Stopped \<in> State ` set (reports (trace (Execute sd s events))) \<longleftrightarrow>
         (\<exists>c \<in> set cs. Cmd c = Interrogate \<and> State (CurrentStatus c) = Stopped))) \<and>
   (returned (Execute sd s events) = Some (False, 0) \<longleftrightarrow>
      (\<exists>cs c es. events = map FromR cs @ FromR c # es \<and> list_all benign cs \<and> \<not> benign c))"
proof -
  let ?s = "s\<lparr>isRunning := True\<rparr>"
  let ?pre = "\<lambda>cs. [\<lparr>State = StartPending, Accepts = cmdsAccepted, CheckPoint = 0, WaitHint = 10000\<rparr>,
         \<lparr>State = Running, Accepts = cmdsAccepted, CheckPoint = 0, WaitHint = 0\<rparr>]
        @ map CurrentStatus (filter (\<lambda>c. Cmd c = Interrogate) cs)"
  have main: "reports (trace (Execute sd s events)) =
        [\<lparr>State = StartPending, Accepts = cmdsAccepted, CheckPoint = 0, WaitHint = 10000\<rparr>,
         \<lparr>State = Running, Accepts = cmdsAccepted, CheckPoint = 0, WaitHint = 0\<rparr>]
        @ map CurrentStatus (filter (\<lambda>c. Cmd c = Interrogate) cs)
        @ (if returned (Execute sd s events) = Some (False, 0)
           then [\<lparr>State = StopPending, Accepts = cmdsAccepted, CheckPoint = 0, WaitHint = 10000\<rparr>]
           else []) \<and>
      (rest = [] \<longrightarrow> returned (Execute sd s events) = None) \<and>
      (\<forall>e es. rest = FromErrChan e # es \<longrightarrow> returned (Execute sd s events) = Some (False, 1)) \<and>
      (\<forall>c es. rest = FromR c # es \<longrightarrow> returned (Execute sd s events) = Some (False, 0)) \<and>
      (Stopped \<in> State ` set (reports (trace (Execute sd s events))) \<longleftrightarrow>
         (\<exists>c \<in> set cs. Cmd c = Interrogate \<and> State (CurrentStatus c) = Stopped))"
    if d: "events = map FromR cs @ rest" "list_all benign cs" "ends_loop rest" for cs rest
  proof -
    note ex = Execute_benign_prefix [OF d(2), of sd s rest]
    have echo: "Stopped \<in> State ` set (map CurrentStatus (filter (\<lambda>c. Cmd c = Interrogate) cs)) \<longleftrightarrow>
        (\<exists>c \<in> set cs. Cmd c = Interrogate \<and> State (CurrentStatus c) = Stopped)"
    proof
      assume "Stopped \<in> State ` set (map CurrentStatus (filter (\<lambda>c. Cmd c = Interrogate) cs))"
      then show "\<exists>c \<in> set cs. Cmd c = Interrogate \<and> State (CurrentStatus c) = Stopped"
        by auto
    next
      assume "\<exists>c \<in> set cs. Cmd c = Interrogate \<and> State (CurrentStatus c) = Stopped"
      then obtain c where c: "c \<in> set cs" "Cmd c = Interrogate" "State (CurrentStatus c) = Stopped"
        by blast
      then have "CurrentStatus c \<in> set (map CurrentStatus (filter (\<lambda>c. Cmd c = Interrogate) cs))"
        by simp
      then have "State (CurrentStatus c)
          \<in> State ` set (map CurrentStatus (filter (\<lambda>c. Cmd c = Interrogate) cs))"
        by (rule imageI)
      with c(3) show "Stopped \<in> State ` set (map CurrentStatus (filter (\<lambda>c. Cmd c = Interrogate) cs))"
        by simp
    qed
    from d(3) show ?thesis
    proof (cases rule: ends_loop_cases)
      case waits
      have "reports (trace (Execute sd s events)) = ?pre cs" "returned (Execute sd s events) = None"
        using ex by (simp_all add: d(1) waits)
      with echo waits show ?thesis by simp
    next
      case (error e es)
      have "reports (trace (Execute sd s events)) = ?pre cs"
        "returned (Execute sd s events) = Some (False, 1)"
        using ex by (simp_all add: d(1) error)
      with echo error show ?thesis by simp
    next
      case (stop c es)
      have "reports (trace (Execute sd s events)) = ?pre cs @
          [\<lparr>State = StopPending, Accepts = cmdsAccepted, CheckPoint = 0, WaitHint = 10000\<rparr>]"
        "returned (Execute sd s events) = Some (False, 0)"
        using ex
        by (simp_all add: d(1) stop(1) loop_stop [OF stop(2)] reports_stop_shutdown
            returned_stop_shutdown del: service_loop.simps)
      with echo stop show ?thesis by simp
    qed
  qed
  have A: "\<exists>cs rest. events = map FromR cs @ rest \<and> list_all benign cs \<and> ends_loop rest"
    by (rule decompose_events)
  have C: "returned (Execute sd s events) = Some (False, 0) \<longleftrightarrow>
      (\<exists>cs c es. events = map FromR cs @ FromR c # es \<and> list_all benign cs \<and> \<not> benign c)"
    unfolding returned_Execute by (rule loop_returned_zero)
  have B: "\<forall>cs rest. events = map FromR cs @ rest \<and> list_all benign cs \<and> ends_loop rest \<longrightarrow>
      reports (trace (Execute sd s events)) =
        [\<lparr>State = StartPending, Accepts = cmdsAccepted, CheckPoint = 0, WaitHint = 10000\<rparr>,
         \<lparr>State = Running, Accepts = cmdsAccepted, CheckPoint = 0, WaitHint = 0\<rparr>]
        @ map CurrentStatus (filter (\<lambda>c. Cmd c = Interrogate) cs)
        @ (if returned (Execute sd s events) = Some (False, 0)
           then [\<lparr>State = StopPending, Accepts = cmdsAccepted, CheckPoint = 0, WaitHint = 10000\<rparr>]
           else []) \<and>
      (rest = [] \<longrightarrow> returned (Execute sd s events) = None) \<and>
      (\<forall>e es. rest = FromErrChan e # es \<longrightarrow> returned (Execute sd s events) = Some (False, 1)) \<and>
      (\<forall>c es. rest = FromR c # es \<longrightarrow> returned (Execute sd s events) = Some (False, 0)) \<and>
      (Stopped \<in> State ` set (reports (trace (Execute sd s events))) \<longleftrightarrow>
         (\<exists>c \<in> set cs. Cmd c = Interrogate \<and> State (CurrentStatus c) = Stopped))"
  proof (intro allI impI)
    fix cs rest
    assume "events = map FromR cs @ rest \<and> list_all benign cs \<and> ends_loop rest"
    then have d: "events = map FromR cs @ rest" "list_all benign cs" "ends_loop rest"
      by simp_all
    from main [OF d] show "reports (trace (Execute sd s events)) =
        [\<lparr>State = StartPending, Accepts = cmdsAccepted, CheckPoint = 0, WaitHint = 10000\<rparr>,
         \<lparr>State = Running, Accepts = cmdsAccepted, CheckPoint = 0, WaitHint = 0\<rparr>]
        @ map CurrentStatus (filter (\<lambda>c. Cmd c = Interrogate) cs)
        @ (if returned (Execute sd s events) = Some (False, 0)
           then [\<lparr>State = StopPending, Accepts = cmdsAccepted, CheckPoint = 0, WaitHint = 10000\<rparr>]
           else []) \<and>
      (rest = [] \<longrightarrow> returned (Execute sd s events) = None) \<and>
      (\<forall>e es. rest = FromErrChan e # es \<longrightarrow> returned (Execute sd s events) = Some (False, 1)) \<and>
      (\<forall>c es. rest = FromR c # es \<longrightarrow> returned (Execute sd s events) = Some (False, 0)) \<and>
      (Stopped \<in> State ` set (reports (trace (Execute sd s events))) \<longleftrightarrow>
         (\<exists>c \<in> set cs. Cmd c = Interrogate \<and> State (CurrentStatus c) = Stopped))" .
  qed
  show ?thesis by (rule conjI [OF A conjI [OF B C]])
qed

theorem Execute_report_order_witness:
  "map State (reports (trace (Execute None demo_service
      [FromR (demo_request Interrogate Running), FromR (demo_request Interrogate Paused),
       FromR (demo_request Stop Running)])))
     = [StartPending, Running, Running, Paused, StopPending] \<and>
   returned (Execute None demo_service
      [FromR (demo_request Interrogate Running), FromR (demo_request Interrogate Paused),
       FromR (demo_request Stop Running)]) = Some (False, 0)"
proof -
  let ?ev = "[FromR (demo_request Interrogate Running), FromR (demo_request Interrogate Paused),
       FromR (demo_request Stop Running)]"
  let ?cs = "[demo_request Interrogate Running, demo_request Interrogate Paused]"
  let ?rest = "[FromR (demo_request Stop Running)]"
  have h: "?ev = map FromR ?cs @ ?rest \<and> list_all benign ?cs \<and> ends_loop ?rest"
    by (simp add: benign_def demo_request_def)
  note t = Execute_report_order [of ?ev None demo_service, THEN conjunct2, THEN conjunct1,
      THEN spec, THEN spec, THEN mp, OF h]
  from t have r: "returned (Execute None demo_service ?ev) = Some (False, 0)"
    by blast
  from t have "reports (trace (Execute None demo_service ?ev)) =
        [\<lparr>State = StartPending, Accepts = cmdsAccepted, CheckPoint = 0, WaitHint = 10000\<rparr>,
         \<lparr>State = Running, Accepts = cmdsAccepted, CheckPoint = 0, WaitHint = 0\<rparr>]
        @ map CurrentStatus (filter (\<lambda>c. Cmd c = Interrogate) ?cs)
        @ (if returned (Execute None demo_service ?ev) = Some (False, 0)
           then [\<lparr>State = StopPending, Accepts = cmdsAccepted, CheckPoint = 0, WaitHint = 10000\<rparr>]
           else [])"
    by (rule conjunct1)
  with r show ?thesis by (simp add: demo_request_def)
qed

text \<open>
  C1 as stated fails: after a \<^verbatim>\<open>Stop\<close> request the last status sent is
  \<open>StopPending\<close>, not \<open>Stopped\<close>; after a listener error no \<open>StopPending\<close> is sent.
\<close>

theorem Execute_final_report_not_Stopped:
  "map State (reports (trace (Execute None demo_service [FromR (demo_request Stop Running)])))
     = [StartPending, Running, StopPending] \<and>
   returned (Execute None demo_service [FromR (demo_request Stop Running)]) = Some (False, 0) \<and>
   map State (reports (trace (Execute None demo_service [FromErrChan (Err ''listen tcp :8089: bind'')])))
     = [StartPending, Running] \<and>
   returned (Execute None demo_service [FromErrChan (Err ''listen tcp :8089: bind'')]) = Some (False, 1)"
  by (simp add: Execute_def goroutine_start_def emit_def stop_shutdown_def demo_request_def)

subsection \<open>Stop and Shutdown\<close>

text \<open>
  C2. On a \<^verbatim>\<open>Stop\<close> or \<^verbatim>\<open>Shutdown\<close> request the loop, besides logging, sends
  \<open>StopPending\<close>, takes the lock, sets \<^verbatim>\<open>isRunning\<close> to false, releases the lock
  and calls \<^verbatim>\<open>server.Shutdown\<close> under a five-second timeout, in this order; it
  returns \<open>(false, 0)\<close> whatever \<^verbatim>\<open>Shutdown\<close> returned (\<open>sd\<close>).
\<close>

theorem Stop_reports_clears_shuts_down:
  assumes "Cmd c = Stop \<or> Cmd c = Shutdown"
  shows "without_elog (trace (service_loop sd s (FromR c # es))) =
           [Report \<lparr>State = StopPending, Accepts = cmdsAccepted, CheckPoint = 0, WaitHint = 10000\<rparr>,
            Lock, Assign_isRunning False, Unlock, Call_Shutdown (5 * Second)] \<and>
         isRunning (final (service_loop sd s (FromR c # es))) = False \<and>
         returned (service_loop sd s (FromR c # es)) = Some (False, 0)"
  using assms unfolding service_loop_FromR
  by (cases sd) (simp_all add: stop_shutdown_def without_elog_def)

theorem Stop_reports_clears_shuts_down_witness:
  "without_elog (trace (service_loop (Some DeadlineExceeded) (demo_service\<lparr>isRunning := True\<rparr>)
       [FromR (demo_request Stop Running)])) =
     [Report \<lparr>State = StopPending, Accepts = 5, CheckPoint = 0, WaitHint = 10000\<rparr>,
      Lock, Assign_isRunning False, Unlock, Call_Shutdown 5000000000] \<and>
   isRunning (final (service_loop (Some DeadlineExceeded) (demo_service\<lparr>isRunning := True\<rparr>)
       [FromR (demo_request Stop Running)])) = False \<and>
   returned (service_loop (Some DeadlineExceeded) (demo_service\<lparr>isRunning := True\<rparr>)
       [FromR (demo_request Stop Running)]) = Some (False, 0)"
proof -
  have "Cmd (demo_request Stop Running) = Stop \<or> Cmd (demo_request Stop Running) = Shutdown"
    by (simp add: demo_request_def)
  from Stop_reports_clears_shuts_down [OF this, of "Some DeadlineExceeded" "demo_service\<lparr>isRunning := True\<rparr>" "[]"]
  show ?thesis
    by (simp add: cmdsAccepted_def AcceptStop_def AcceptShutdown_def Second_def)
qed

subsection \<open>Interrogate\<close>

text \<open>
  C6. However many \<^verbatim>\<open>Interrogate\<close> requests the loop receives, the service
  (its \<^verbatim>\<open>isRunning\<close> flag included) stays as it was and the loop goes on; each
  request is answered with the status it carries, and nothing else is done
  besides logging. What follows the requests runs as it would have run without
  them, and as after a single one of them.
\<close>

theorem Interrogate_idempotent:
  assumes "list_all (\<lambda>c. Cmd c = Interrogate) cs"
  shows "final (service_loop sd s (map FromR cs)) = s \<and>
         returned (service_loop sd s (map FromR cs)) = None \<and>
         without_elog (trace (service_loop sd s (map FromR cs))) =
           map (\<lambda>c. Report (CurrentStatus c)) cs \<and>
         final (service_loop sd s (map FromR cs @ es)) = final (service_loop sd s es) \<and>
         returned (service_loop sd s (map FromR cs @ es)) = returned (service_loop sd s es) \<and>
         reports (trace (service_loop sd s (map FromR cs @ es))) =
           map CurrentStatus cs @ reports (trace (service_loop sd s es)) \<and>
         (cs \<noteq> [] \<longrightarrow>
            final (service_loop sd s (map FromR cs @ es)) = final (service_loop sd s (FromR (hd cs) # es)) \<and>
            returned (service_loop sd s (map FromR cs @ es)) =
              returned (service_loop sd s (FromR (hd cs) # es)))"
proof -
  from assms have all: "list_all benign cs" and f: "filter (\<lambda>c. Cmd c = Interrogate) cs = cs"
    by (simp_all add: list_all_iff interrogate_benign)
  from loop_benign_prefix [OF all, of sd s es] f obtain acts where
    a: "service_loop sd s (map FromR cs @ es) = emit acts (service_loop sd s es)"
       "without_elog acts = map (\<lambda>c. Report (CurrentStatus c)) cs"
    by auto
  from loop_benign_prefix [OF all, of sd s "[]"] f obtain acts' where
    b: "service_loop sd s (map FromR cs) = emit acts' (service_loop sd s [])"
       "without_elog acts' = map (\<lambda>c. Report (CurrentStatus c)) cs"
    by auto
  have ra: "reports acts = map CurrentStatus cs"
    using a(2) reports_without_elog [of acts] by (simp add: reports_map_Report)
  have one: "final (service_loop sd s (FromR (hd cs) # es)) = final (service_loop sd s es) \<and>
      returned (service_loop sd s (FromR (hd cs) # es)) = returned (service_loop sd s es)"
    if "cs \<noteq> []"
  proof -
    from that assms have "benign (hd cs)"
      by (cases cs) (simp_all add: interrogate_benign)
    from loop_benign_step [OF this, of sd s es] show ?thesis
      by (auto simp: final_emit returned_emit)
  qed
  show ?thesis
    using one by (simp add: a(1) b trace_emit final_emit returned_emit reports_append ra
        without_elog_append)
qed

theorem Interrogate_idempotent_witness:
  "final (service_loop None (demo_service\<lparr>isRunning := True\<rparr>)
      (map FromR (replicate 3 (demo_request Interrogate Running)))) = demo_service\<lparr>isRunning := True\<rparr> \<and>
   reports (trace (service_loop None (demo_service\<lparr>isRunning := True\<rparr>)
      (map FromR (replicate 3 (demo_request Interrogate Running))))) =
     replicate 3 (CurrentStatus (demo_request Interrogate Running))"
proof -
  have "list_all (\<lambda>c. Cmd c = Interrogate) (replicate 3 (demo_request Interrogate Running))"
    by (simp add: list_all_iff demo_request_def)
  from Interrogate_idempotent [OF this, of None "demo_service\<lparr>isRunning := True\<rparr>" "[]"]
  show ?thesis by simp
qed

subsection \<open>Listener error\<close>

text \<open>
  C7, as the code has it. An error the goroutine sends on \<^verbatim>\<open>errChan\<close> (any
  error of \<^verbatim>\<open>ListenAndServe\<close> but \<^verbatim>\<open>http.ErrServerClosed\<close>, logged before it is
  sent) makes the callback, when its \<^verbatim>\<open>select\<close> takes it after requests it
  passed over, log it and return \<open>(false, 1)\<close> at once: it has sent no
  \<open>StopPending\<close> of its own, has not cleared \<^verbatim>\<open>isRunning\<close> and has not called
  \<^verbatim>\<open>server.Shutdown\<close>. When the \<^verbatim>\<open>select\<close> takes a \<^verbatim>\<open>Stop\<close> or \<^verbatim>\<open>Shutdown\<close>
  request while the error waits in the channel, the error is never read: the
  callback sends \<open>StopPending\<close>, clears \<^verbatim>\<open>isRunning\<close>, calls \<^verbatim>\<open>server.Shutdown\<close>
  and returns \<open>(false, 0)\<close>.
\<close>

theorem listener_error_returns_failure:
  assumes "goroutine_end err = (logged, Some e)" and "list_all benign cs"
  shows "e = err \<and> err \<noteq> ErrServerClosed \<and>
         logged = [ElogError 1 (WithError ''HTTP server error: %v'' e)] \<and>
         service_loop sd s (FromErrChan e # es) =
           \<lparr>trace = logged @ [ElogError 1 (WithError ''Server error: %v'' e)], final = s,
            returned = Some (False, 1)\<rparr> \<and>
         returned (Execute sd s (map FromR cs @ FromErrChan e # es)) = Some (False, 1) \<and>
         isRunning (final (Execute sd s (map FromR cs @ FromErrChan e # es))) = True \<and>
         reports (trace (Execute sd s (map FromR cs @ FromErrChan e # es))) =
           [\<lparr>State = StartPending, Accepts = cmdsAccepted, CheckPoint = 0, WaitHint = 10000\<rparr>,
            \<lparr>State = Running, Accepts = cmdsAccepted, CheckPoint = 0, WaitHint = 0\<rparr>]
           @ map CurrentStatus (filter (\<lambda>c. Cmd c = Interrogate) cs) \<and>
         Assign_isRunning False \<notin> set (trace (Execute sd s (map FromR cs @ FromErrChan e # es))) \<and>
         (\<forall>d. Call_Shutdown d \<notin> set (trace (Execute sd s (map FromR cs @ FromErrChan e # es)))) \<and>
         (\<forall>c es'. \<not> benign c \<longrightarrow>
            returned (Execute sd s (map FromR cs @ FromR c # FromErrChan e # es')) = Some (False, 0) \<and>
            isRunning (final (Execute sd s (map FromR cs @ FromR c # FromErrChan e # es'))) = False \<and>
            reports (trace (Execute sd s (map FromR cs @ FromR c # FromErrChan e # es'))) =
              [\<lparr>State = StartPending, Accepts = cmdsAccepted, CheckPoint = 0, WaitHint = 10000\<rparr>,
               \<lparr>State = Running, Accepts = cmdsAccepted, CheckPoint = 0, WaitHint = 0\<rparr>]
              @ map CurrentStatus (filter (\<lambda>c. Cmd c = Interrogate) cs)
              @ [\<lparr>State = StopPending, Accepts = cmdsAccepted, CheckPoint = 0, WaitHint = 10000\<rparr>] \<and>
            Call_Shutdown (5 * Second)
              \<in> set (trace (Execute sd s (map FromR cs @ FromR c # FromErrChan e # es'))))"
proof -
  from assms(1) have e: "e = err" "err \<noteq> ErrServerClosed"
    "logged = [ElogError 1 (WithError ''HTTP server error: %v'' e)]"
    by (auto simp: goroutine_end_def split: if_splits)
  let ?s = "s\<lparr>isRunning := True\<rparr>"
  have loop: "service_loop sd s (FromErrChan e # es) =
           \<lparr>trace = logged @ [ElogError 1 (WithError ''Server error: %v'' e)], final = s,
            returned = Some (False, 1)\<rparr>"
    by (simp add: e(3))
  from loop_benign_prefix [OF assms(2), of sd ?s "FromErrChan e # es"] obtain acts where
    a: "service_loop sd ?s (map FromR cs @ FromErrChan e # es) =
          emit acts (service_loop sd ?s (FromErrChan e # es))"
       "without_elog acts =
          map (\<lambda>c. Report (CurrentStatus c)) (filter (\<lambda>c. Cmd c = Interrogate) cs)"
    by blast
  have mem: "x \<in> set acts \<Longrightarrow> is_elog x \<or> (\<exists>st. x = Report st)" for x
  proof -
    assume x: "x \<in> set acts"
    show ?thesis
    proof (cases "is_elog x")
      case False
      with x have "x \<in> set (without_elog acts)" by (simp add: without_elog_def)
      then show ?thesis unfolding a(2) by auto
    qed simp
  qed
  have no1: "Assign_isRunning False \<notin> set acts" using mem by fastforce
  have no2: "Call_Shutdown d \<notin> set acts" for d using mem by fastforce
  have tr: "trace (Execute sd s (map FromR cs @ FromErrChan e # es)) =
      [Report \<lparr>State = StartPending, Accepts = cmdsAccepted, CheckPoint = 0, WaitHint = 10000\<rparr>,
       ElogInfo 1 (Text ''Service Execute started''), Go,
       ElogInfo 1 (WithPortFolder ''Starting HTTP server on port %s serving folder %s''
         (Port (config s)) (Folder (config s))),
       Lock, Assign_isRunning True, Unlock, Call_ListenAndServe,
       Sleep (1 * Second),
       Report \<lparr>State = Running, Accepts = cmdsAccepted, CheckPoint = 0, WaitHint = 0\<rparr>,
       ElogInfo 1 (Text ''Service status set to running'')]
      @ acts @ [ElogError 1 (WithError ''HTTP server error: %v'' e),
                ElogError 1 (WithError ''Server error: %v'' e)]"
    by (simp add: Execute_def goroutine_start_def a(1) trace_emit)
  note ex = Execute_benign_prefix [OF assms(2), of sd s "FromErrChan e # es"]
  have taken: "returned (Execute sd s (map FromR cs @ FromErrChan e # es)) = Some (False, 1) \<and>
         isRunning (final (Execute sd s (map FromR cs @ FromErrChan e # es))) = True \<and>
         reports (trace (Execute sd s (map FromR cs @ FromErrChan e # es))) =
           [\<lparr>State = StartPending, Accepts = cmdsAccepted, CheckPoint = 0, WaitHint = 10000\<rparr>,
            \<lparr>State = Running, Accepts = cmdsAccepted, CheckPoint = 0, WaitHint = 0\<rparr>]
           @ map CurrentStatus (filter (\<lambda>c. Cmd c = Interrogate) cs)"
    unfolding ex by simp
  have none: "Assign_isRunning False \<notin> set (trace (Execute sd s (map FromR cs @ FromErrChan e # es))) \<and>
         (\<forall>d. Call_Shutdown d \<notin> set (trace (Execute sd s (map FromR cs @ FromErrChan e # es))))"
    unfolding tr using no1 no2 by simp
  have lost: "returned (Execute sd s (map FromR cs @ FromR c # FromErrChan e # es')) = Some (False, 0) \<and>
            isRunning (final (Execute sd s (map FromR cs @ FromR c # FromErrChan e # es'))) = False \<and>
            reports (trace (Execute sd s (map FromR cs @ FromR c # FromErrChan e # es'))) =
              [\<lparr>State = StartPending, Accepts = cmdsAccepted, CheckPoint = 0, WaitHint = 10000\<rparr>,
               \<lparr>State = Running, Accepts = cmdsAccepted, CheckPoint = 0, WaitHint = 0\<rparr>]
              @ map CurrentStatus (filter (\<lambda>c. Cmd c = Interrogate) cs)
              @ [\<lparr>State = StopPending, Accepts = cmdsAccepted, CheckPoint = 0, WaitHint = 10000\<rparr>] \<and>
            Call_Shutdown (5 * Second)
              \<in> set (trace (Execute sd s (map FromR cs @ FromR c # FromErrChan e # es')))"
    if nb: "\<not> benign c" for c es'
  proof -
    note ex' = Execute_benign_prefix [OF assms(2), of sd s "FromR c # FromErrChan e # es'"]
    from loop_benign_prefix [OF assms(2), of sd ?s "FromR c # FromErrChan e # es'"] obtain acts' where
      a': "service_loop sd ?s (map FromR cs @ FromR c # FromErrChan e # es') =
          emit acts' (service_loop sd ?s (FromR c # FromErrChan e # es'))"
      by blast
    have sh: "Call_Shutdown (5 * Second) \<in> set (trace (stop_shutdown sd ?s))"
      by (simp add: stop_shutdown_def)
    have "Call_Shutdown (5 * Second)
        \<in> set (trace (Execute sd s (map FromR cs @ FromR c # FromErrChan e # es')))"
      using sh
      by (simp add: Execute_def goroutine_start_def a' trace_emit loop_stop [OF nb]
          del: service_loop.simps)
    then show ?thesis
      unfolding ex' loop_stop [OF nb]
      by (simp add: reports_stop_shutdown returned_stop_shutdown final_stop_shutdown)
  qed
  from e loop taken none lost show ?thesis by blast
qed

theorem listener_error_returns_failure_witness:
  "goroutine_end (Err ''listen tcp :8089: bind'') =
     ([ElogError 1 (WithError ''HTTP server error: %v'' (Err ''listen tcp :8089: bind''))],
      Some (Err ''listen tcp :8089: bind'')) \<and>
   returned (Execute None demo_service
     [FromR (demo_request Interrogate Running), FromErrChan (Err ''listen tcp :8089: bind'')])
     = Some (False, 1) \<and>
   isRunning (final (Execute None demo_service
     [FromR (demo_request Interrogate Running), FromErrChan (Err ''listen tcp :8089: bind'')])) \<and>
   map State (reports (trace (Execute None demo_service
     [FromR (demo_request Interrogate Running), FromErrChan (Err ''listen tcp :8089: bind'')])))
     = [StartPending, Running, Running]"
proof -
  have g: "goroutine_end (Err ''listen tcp :8089: bind'') =
     ([ElogError 1 (WithError ''HTTP server error: %v'' (Err ''listen tcp :8089: bind''))],
      Some (Err ''listen tcp :8089: bind''))"
    by (simp add: goroutine_end_def)
  have b: "list_all benign [demo_request Interrogate Running]"
    by (simp add: benign_def demo_request_def)
  note t = listener_error_returns_failure [OF g b, of None demo_service "[]"]
  from t have "returned (Execute None demo_service
     (map FromR [demo_request Interrogate Running] @ [FromErrChan (Err ''listen tcp :8089: bind'')]))
     = Some (False, 1) \<and>
   isRunning (final (Execute None demo_service
     (map FromR [demo_request Interrogate Running] @ [FromErrChan (Err ''listen tcp :8089: bind'')]))) = True \<and>
   reports (trace (Execute None demo_service
     (map FromR [demo_request Interrogate Running] @ [FromErrChan (Err ''listen tcp :8089: bind'')]))) =
           [\<lparr>State = StartPending, Accepts = cmdsAccepted, CheckPoint = 0, WaitHint = 10000\<rparr>,
            \<lparr>State = Running, Accepts = cmdsAccepted, CheckPoint = 0, WaitHint = 0\<rparr>]
           @ map CurrentStatus (filter (\<lambda>c. Cmd c = Interrogate) [demo_request Interrogate Running])"
    by blast
  with g show ?thesis by (simp add: demo_request_def)
qed

text \<open>
  C7 as stated fails: with the error delivered and a \<^verbatim>\<open>Stop\<close> request ready too,
  the \<^verbatim>\<open>select\<close> may take the request; the callback then shuts down and
  returns \<open>(false, 0)\<close>.
\<close>

theorem listener_error_lost_to_stop:
  "returned (Execute None demo_service
     [FromR (demo_request Stop Running), FromErrChan (Err ''listen tcp :8089: bind'')])
     = Some (False, 0) \<and>
   map State (reports (trace (Execute None demo_service
     [FromR (demo_request Stop Running), FromErrChan (Err ''listen tcp :8089: bind'')])))
     = [StartPending, Running, StopPending] \<and>
   isRunning (final (Execute None demo_service
     [FromR (demo_request Stop Running), FromErrChan (Err ''listen tcp :8089: bind'')])) = False \<and>
   Assign_isRunning False \<in> set (trace (Execute None demo_service
     [FromR (demo_request Stop Running), FromErrChan (Err ''listen tcp :8089: bind'')])) \<and>
   Call_Shutdown 5000000000 \<in> set (trace (Execute None demo_service
     [FromR (demo_request Stop Running), FromErrChan (Err ''listen tcp :8089: bind'')]))"
  by (simp add: Execute_def goroutine_start_def emit_def stop_shutdown_def demo_request_def
      Second_def)

section \<open>HTTP listener and static file responder: results\<close>

subsection \<open>Request logging\<close>

text \<open>
  C4, as the code has it. In the container variant the handler registered for
  the pattern \<^verbatim>\<open>/\<close> is the closure of \<^verbatim>\<open>ServeFiles\<close>, which, for every request
  it is called with, logs the method and the path and then hands the request to
  the file-serving primitive. In the service variant the handler registered for
  \<^verbatim>\<open>/\<close> is the file-serving primitive itself: called with a request, it serves
  it and logs nothing.
\<close>

theorem responder_logs_in_container_only:
  "registered (fst (ServeFiles port folder)) (snd (ServeFiles port folder)) ''/''
     = Some (ServeFiles_handler folder) \<and>
   ServeFiles_handler folder r =
     [LogPrintf (''Received request: '' @ Method r @ '' '' @ URLPath r), FileServe folder r] \<and>
   registered D (createServer cfg) ''/'' = Some (http_FileServer (Folder cfg)) \<and>
   http_FileServer (Folder cfg) r = [FileServe (Folder cfg) r]"
  by (simp add: registered_def ServeFiles_def http_ListenAndServe_def createServer_def
      ServeFiles_handler_def http_FileServer_def)

theorem responder_logs_in_container_only_witness:
  "ServeFiles_handler ''/images'' \<lparr>Method = ''GET'', URLPath = ''/cover.png''\<rparr> =
     [LogPrintf ''Received request: GET /cover.png'',
      FileServe ''/images'' \<lparr>Method = ''GET'', URLPath = ''/cover.png''\<rparr>] \<and>
   http_FileServer ''C:/Images'' \<lparr>Method = ''GET'', URLPath = ''/cover.png''\<rparr> =
     [FileServe ''C:/Images'' \<lparr>Method = ''GET'', URLPath = ''/cover.png''\<rparr>]"
  using responder_logs_in_container_only
    [of "''8089''" "''/images''" "\<lparr>Method = ''GET'', URLPath = ''/cover.png''\<rparr>" "[]" demo_config]
  by (simp add: demo_config_def)

text \<open>
  C4 as stated fails in the service variant: the handler \<^verbatim>\<open>createServer\<close>
  registers for \<^verbatim>\<open>/\<close> is the file server, and a request it is called with is
  served with no line logged.
\<close>

theorem service_responder_does_not_log:
  "registered [] (createServer demo_config) ''/'' = Some (http_FileServer ''C:/Images'') \<and>
   http_FileServer ''C:/Images'' \<lparr>Method = ''GET'', URLPath = ''/cover.png''\<rparr> =
     [FileServe ''C:/Images'' \<lparr>Method = ''GET'', URLPath = ''/cover.png''\<rparr>]"
  by (simp add: registered_def createServer_def demo_config_def http_FileServer_def)

subsection \<open>Construction of the listener\<close>

text \<open>
  C5, as the code has it. The listener of the service variant binds
  \<^verbatim>\<open>:<port>\<close>, has on its own mux the file server registered for the pattern
  \<^verbatim>\<open>/\<close> and nothing else, and has a read and a write timeout of 15 seconds and
  an idle timeout of 60 seconds. The listener of the container variant binds
  \<^verbatim>\<open>:<port>\<close>, has a nil handler and so the default mux, on which the logging
  responder is registered for \<^verbatim>\<open>/\<close> and nothing else; its three timeouts are
  zero, that is, not set.
\<close>

theorem listener_construction:
  "Addr (createServer cfg) = '':'' @ Port cfg \<and>
   Handler (createServer cfg) = Some [(''/'', http_FileServer (Folder cfg))] \<and>
   registered D (createServer cfg) ''/'' = Some (http_FileServer (Folder cfg)) \<and>
   ReadTimeout (createServer cfg) = 15 * Second \<and>
   WriteTimeout (createServer cfg) = 15 * Second \<and>
   IdleTimeout (createServer cfg) = 60 * Second \<and>
   Addr (snd (ServeFiles port folder)) = '':'' @ port \<and>
   Handler (snd (ServeFiles port folder)) = None \<and>
   fst (ServeFiles port folder) = [(''/'', ServeFiles_handler folder)] \<and>
   registered (fst (ServeFiles port folder)) (snd (ServeFiles port folder)) ''/''
     = Some (ServeFiles_handler folder) \<and>
   ReadTimeout (snd (ServeFiles port folder)) = 0 \<and>
   WriteTimeout (snd (ServeFiles port folder)) = 0 \<and>
   IdleTimeout (snd (ServeFiles port folder)) = 0"
  by (simp add: createServer_def ServeFiles_def http_ListenAndServe_def registered_def)

theorem listener_construction_witness:
  "Addr (createServer demo_config) = '':8089'' \<and>
   ReadTimeout (createServer demo_config) = 15000000000 \<and>
   WriteTimeout (createServer demo_config) = 15000000000 \<and>
   IdleTimeout (createServer demo_config) = 60000000000 \<and>
   Addr (snd (ServeFiles ''8089'' ''/images'')) = '':8089'' \<and>
   ReadTimeout (snd (ServeFiles ''8089'' ''/images'')) = 0"
  using listener_construction [of demo_config "[]" "''8089''" "''/images''"]
  by (simp add: demo_config_def Second_def)

text \<open>C5 as stated fails in the container variant: no timeout is set.\<close>

theorem container_listener_has_no_timeouts:
  "ReadTimeout (snd (ServeFiles ''8089'' ''/images'')) = 0 \<and>
   WriteTimeout (snd (ServeFiles ''8089'' ''/images'')) = 0 \<and>
   IdleTimeout (snd (ServeFiles ''8089'' ''/images'')) = 0 \<and>
   ReadTimeout (snd (ServeFiles ''8089'' ''/images'')) \<noteq> 15 * Second \<and>
   WriteTimeout (snd (ServeFiles ''8089'' ''/images'')) \<noteq> 15 * Second \<and>
   IdleTimeout (snd (ServeFiles ''8089'' ''/images'')) \<noteq> 60 * Second"
  by (simp add: ServeFiles_def http_ListenAndServe_def Second_def)

section \<open>Service installer: results\<close>

subsection \<open>The event-log source and the runs of the installer\<close>

lemma strings_Contains_iff: "strings_Contains s sub \<longleftrightarrow> (\<exists>ps ss. s = ps @ sub @ ss)"
proof (induction s)
  case Nil
  then show ?case by auto
next
  case (Cons x xs)
  show ?case
  proof
    assume "strings_Contains (x # xs) sub"
    then consider "prefix sub (x # xs)" | "strings_Contains xs sub" by auto
    then show "\<exists>ps ss. x # xs = ps @ sub @ ss"
    proof cases
      case 1
      then obtain ss where "x # xs = sub @ ss" by (auto simp: prefix_def)
      then have "x # xs = [] @ sub @ ss" by simp
      then show ?thesis by blast
    next
      case 2
      with Cons.IH obtain ps ss where "xs = ps @ sub @ ss" by blast
      then have "x # xs = (x # ps) @ sub @ ss" by simp
      then show ?thesis by blast
    qed
  next
    assume "\<exists>ps ss. x # xs = ps @ sub @ ss"
    then obtain ps ss where d: "x # xs = ps @ sub @ ss" by blast
    show "strings_Contains (x # xs) sub"
    proof (cases ps)
      case Nil
      with d have "prefix sub (x # xs)" by (simp add: prefix_def)
      then show ?thesis by simp
    next
      case (Cons p ps')
      with d have "xs = ps' @ sub @ ss" by simp
      with Cons.IH have "strings_Contains xs sub" by blast
      then show ?thesis by simp
    qed
  qed
qed

lemma contains_already_exists:
  "strings_Contains (already_exists src) ''registry key already exists''"
proof -
  have "already_exists src =
      (addKeyName @ [CHR 0x5C] @ src @ '' '') @ ''registry key already exists'' @ []"
    by (simp add: already_exists_def)
  then show ?thesis unfolding strings_Contains_iff by blast
qed

lemma denied_not_already_exists:
  "\<not> strings_Contains ''Access is denied.'' ''registry key already exists''"
  by simp


lemma eventlog_Remove_services: "services (snd (eventlog_Remove d src sys)) = services sys"
  by (simp add: eventlog_Remove_def)

lemma eventlog_Remove_eventlog:
  "eventlog (snd (eventlog_Remove d src sys)) =
     (if d then eventlog sys else (eventlog sys)(src := None))"
  by (auto simp: eventlog_Remove_def)

lemma InstallAsEventCreate_cases:
  assumes "eventlog_InstallAsEventCreate d src ev sys = (r, sys')"
  shows "(r = None \<and> sys' = sys\<lparr>eventlog := (eventlog sys)(src \<mapsto> ev)\<rparr>) \<or>
         (r = Some ''Access is denied.'' \<and> sys' = sys) \<or>
         (r = Some (already_exists src) \<and>
          sys' = sys \<and> eventlog sys src \<noteq> None)"
  using assms by (auto simp: eventlog_InstallAsEventCreate_def split: if_splits)

lemma installService_first_call:
  "\<exists>rest. install_calls (installService env sys) =
     Call_eventlog_Remove ''ImageServer'' # Call_os_Executable # rest \<and>
     (Call_mgr_Connect \<in> set rest \<or> rest = []) \<and>
     Call_eventlog_Remove ''ImageServer'' \<notin> set rest"
  by (auto simp: installService_def Let_def split: prod.splits sum.splits option.splits)

lemma installService_exists:
  assumes "services sys ''ImageServer'' = Some reg"
  shows "install_error (installService env sys) =
           (case exe_path env of Inl e \<Rightarrow> Some (FailedExecutable e)
            | Inr p \<Rightarrow> (case connect_error env of Some e \<Rightarrow> Some (FailedConnect e)
                        | None \<Rightarrow> Some ServiceAlreadyExists))"
    and "install_system (installService env sys) = snd (eventlog_Remove (remove_denied env) ''ImageServer'' sys)"
proof -
  obtain ign sys1 where r: "eventlog_Remove (remove_denied env) ''ImageServer'' sys = (ign, sys1)"
    by (cases "eventlog_Remove (remove_denied env) ''ImageServer'' sys")
  from eventlog_Remove_services [of "remove_denied env" "''ImageServer''" sys] r assms
  have s: "services sys1 ''ImageServer'' = Some reg" by simp
  show "install_error (installService env sys) =
           (case exe_path env of Inl e \<Rightarrow> Some (FailedExecutable e)
            | Inr p \<Rightarrow> (case connect_error env of Some e \<Rightarrow> Some (FailedConnect e)
                        | None \<Rightarrow> Some ServiceAlreadyExists))"
    by (simp add: installService_def r s Let_def split: sum.splits option.splits)
  show "install_system (installService env sys) = snd (eventlog_Remove (remove_denied env) ''ImageServer'' sys)"
    by (simp add: installService_def r s Let_def split: sum.splits option.splits)
qed

lemma installService_success:
  assumes "install_error (installService env sys) = None"
  shows "\<exists>exePath. exe_path env = Inr exePath \<and>
           services sys ''ImageServer'' = None \<and>
           services (install_system (installService env sys)) =
             (services sys)(''ImageServer'' \<mapsto> new_registration exePath) \<and>
           eventlog (install_system (installService env sys)) ''ImageServer'' \<noteq> None"
proof -
  obtain ign sys1 where r: "eventlog_Remove (remove_denied env) ''ImageServer'' sys = (ign, sys1)"
    by (cases "eventlog_Remove (remove_denied env) ''ImageServer'' sys")
  from eventlog_Remove_services [of "remove_denied env" "''ImageServer''" sys] r
  have s1: "services sys1 = services sys" by simp
  from assms obtain exePath where exe: "exe_path env = Inr exePath"
    by (cases "exe_path env") (auto simp: installService_def r Let_def)
  from assms exe have con: "connect_error env = None"
    by (cases "connect_error env") (auto simp: installService_def r Let_def)
  from assms exe con have free: "services sys1 ''ImageServer'' = None"
    by (cases "services sys1 ''ImageServer''") (auto simp: installService_def r Let_def)
  from assms exe con free have cre: "create_error env = None"
    by (cases "create_error env") (auto simp: installService_def r Let_def)
  let ?sys2 = "sys1\<lparr>services := (services sys1)(''ImageServer'' \<mapsto> new_registration exePath)\<rparr>"
  let ?ev = "eventlog_Error OR eventlog_Warning OR eventlog_Info"
  obtain msg sys3 where i: "eventlog_InstallAsEventCreate (install_denied env) ''ImageServer'' ?ev ?sys2 = (msg, sys3)"
    by (cases "eventlog_InstallAsEventCreate (install_denied env) ''ImageServer'' ?ev ?sys2")
  have run: "installService env sys =
      (case msg of
         None \<Rightarrow> \<lparr>install_error = None, install_system = sys3,
                   install_calls = [Call_eventlog_Remove ''ImageServer'', Call_os_Executable,
                     Call_mgr_Connect, Call_OpenService ''ImageServer'',
                     Call_CreateService ''ImageServer'' exePath (SvcConfig (new_registration exePath)) [''service''],
                     Call_InstallAsEventCreate ''ImageServer'' ?ev, Call_Close, Call_Disconnect]\<rparr>
       | Some m \<Rightarrow>
           if \<not> strings_Contains m ''registry key already exists''
           then \<lparr>install_error = Some (FailedInstallEventLogger m),
                 install_system = sys3\<lparr>services := (services sys3)(''ImageServer'' := None)\<rparr>,
                 install_calls = [Call_eventlog_Remove ''ImageServer'', Call_os_Executable,
                     Call_mgr_Connect, Call_OpenService ''ImageServer'',
                     Call_CreateService ''ImageServer'' exePath (SvcConfig (new_registration exePath)) [''service''],
                     Call_InstallAsEventCreate ''ImageServer'' ?ev, Call_Delete, Call_Close, Call_Disconnect]\<rparr>
           else \<lparr>install_error = None, install_system = sys3,
                   install_calls = [Call_eventlog_Remove ''ImageServer'', Call_os_Executable,
                     Call_mgr_Connect, Call_OpenService ''ImageServer'',
                     Call_CreateService ''ImageServer'' exePath (SvcConfig (new_registration exePath)) [''service''],
                     Call_InstallAsEventCreate ''ImageServer'' ?ev, Call_Close, Call_Disconnect]\<rparr>)"
    using i by (simp add: installService_def r exe con free cre Let_def new_registration_def
        del: strings_Contains.simps split: option.splits)
  from InstallAsEventCreate_cases [OF i]
  consider (ok) "msg = None" "sys3 = ?sys2\<lparr>eventlog := (eventlog ?sys2)(''ImageServer'' \<mapsto> ?ev)\<rparr>"
    | (denied) "msg = Some ''Access is denied.''" "sys3 = ?sys2"
    | (exists) "msg = Some (already_exists ''ImageServer'')"
        "sys3 = ?sys2" "eventlog ?sys2 ''ImageServer'' \<noteq> None"
    by blast
  then have "services (install_system (installService env sys)) =
             (services sys)(''ImageServer'' \<mapsto> new_registration exePath) \<and>
           eventlog (install_system (installService env sys)) ''ImageServer'' \<noteq> None"
  proof cases
    case ok
    then show ?thesis unfolding run by (simp add: s1)
  next
    case denied
    with assms denied_not_already_exists show ?thesis unfolding run
      by (simp del: strings_Contains.simps)
  next
    case exists
    have c: "strings_Contains (already_exists ''ImageServer'') ''registry key already exists''"
      by (rule contains_already_exists)
    from exists show ?thesis unfolding run
      by (simp add: c s1 del: strings_Contains.simps)
  qed
  with exe free s1 show ?thesis by simp
qed


lemma main_install_fst:
  "fst (main_install env sys) = (case install_error (installService env sys) of Some e \<Rightarrow> 1 | None \<Rightarrow> 0)"
  and main_install_snd: "snd (main_install env sys) = install_system (installService env sys)"
  by (simp_all add: main_install_def Let_def)

lemma manage_service_install_fst:
  "fst (manage_service_install env sys) = fst (main_install env sys)"
  by (simp add: manage_service_install_def split: prod.splits)

lemma manage_service_install_snd:
  "snd (manage_service_install env sys) =
     (if fst (main_install env sys) = 0
      then sc_failure ''ImageServer'' 86400 [Restart 60000, Restart 60000, Restart 60000]
             (sc_config_start ''ImageServer'' StartAutomatic (snd (main_install env sys)))
      else snd (main_install env sys))"
  by (simp add: manage_service_install_def split: prod.splits)

lemma installService_error_eventlog:
  assumes "install_error (installService env sys) = Some e"
  shows "eventlog (install_system (installService env sys)) =
           eventlog (snd (eventlog_Remove (remove_denied env) ''ImageServer'' sys))"
proof -
  obtain ign sys1 where r: "eventlog_Remove (remove_denied env) ''ImageServer'' sys = (ign, sys1)"
    by (cases "eventlog_Remove (remove_denied env) ''ImageServer'' sys")
  show ?thesis
    using assms contains_already_exists [of "''ImageServer''"]
    by (auto simp: installService_def r Let_def eventlog_InstallAsEventCreate_def
        simp del: strings_Contains.simps
        split: sum.splits option.splits if_splits prod.splits)
qed

subsection \<open>A successful install\<close>

text \<open>
  C8. When the \<^verbatim>\<open>install\<close> command of \<^verbatim>\<open>manage_service.bat\<close> ends with status 0,
  \<^verbatim>\<open>installService\<close> returned no error and registered the path of the executable
  as the service \<^verbatim>\<open>ImageServer\<close> with automatic start and no recovery settings; the
  script then gave it a reset period of 24 hours and restarts after 60 seconds
  as its failure actions; and an event-log source \<^verbatim>\<open>ImageServer\<close> is registered.
\<close>

theorem install_registers_autostart_service:
  assumes "fst (manage_service_install env sys) = 0"
  shows "\<exists>exePath reg.
           exe_path env = Inr exePath \<and>
           install_error (installService env sys) = None \<and>
           services (install_system (installService env sys)) ''ImageServer''
             = Some (new_registration exePath) \<and>
           services (snd (manage_service_install env sys)) ''ImageServer'' = Some reg \<and>
           BinaryPath reg = exePath \<and>
           StartType (SvcConfig reg) = StartAutomatic \<and>
           ResetPeriod reg = 24 * 60 * 60 \<and>
           FailureActions reg = replicate 3 (Restart (60 * 1000)) \<and>
           eventlog (snd (manage_service_install env sys)) ''ImageServer'' \<noteq> None"
proof -
  from assms have ok: "install_error (installService env sys) = None"
    by (simp add: manage_service_install_fst main_install_fst split: option.splits)
  from installService_success [OF ok] obtain exePath where
    e: "exe_path env = Inr exePath"
       "services (install_system (installService env sys)) =
          (services sys)(''ImageServer'' \<mapsto> new_registration exePath)"
       "eventlog (install_system (installService env sys)) ''ImageServer'' \<noteq> None"
    by blast
  let ?s = "install_system (installService env sys)"
  let ?reg = "(new_registration exePath)\<lparr>ResetPeriod := 86400,
      FailureActions := [Restart 60000, Restart 60000, Restart 60000]\<rparr>"
  have after: "snd (manage_service_install env sys) =
      sc_failure ''ImageServer'' 86400 [Restart 60000, Restart 60000, Restart 60000]
        (sc_config_start ''ImageServer'' StartAutomatic ?s)"
    using ok by (simp add: manage_service_install_snd main_install_fst main_install_snd)
  have s: "services (snd (manage_service_install env sys)) ''ImageServer'' = Some ?reg"
    unfolding after
    by (simp add: sc_failure_def sc_config_start_def e(2) new_registration_def)
  have l: "eventlog (snd (manage_service_install env sys)) = eventlog ?s"
    unfolding after
    by (simp add: sc_failure_def sc_config_start_def e(2))
  have r: "BinaryPath ?reg = exePath \<and> StartType (SvcConfig ?reg) = StartAutomatic \<and>
      ResetPeriod ?reg = 24 * 60 * 60 \<and> FailureActions ?reg = replicate 3 (Restart (60 * 1000))"
    by (simp add: new_registration_def numeral_3_eq_3)
  from e ok s l r show ?thesis by (simp add: e(2))
qed

theorem install_registers_autostart_service_witness:
  "fst (manage_service_install fair_env empty_system) = 0 \<and>
   services (snd (manage_service_install fair_env empty_system)) ''ImageServer'' =
     Some \<lparr>BinaryPath = ''C:/srv/image_server.exe'', Arguments = [''service''],
       SvcConfig = \<lparr>StartType = StartAutomatic, DisplayName = ''Image Server'',
         Description = ''A simple image-serving web server.'',
         ServiceStartName = ''LocalSystem''\<rparr>,
       ResetPeriod = 86400,
       FailureActions = [Restart 60000, Restart 60000, Restart 60000]\<rparr> \<and>
   eventlog (snd (manage_service_install fair_env empty_system)) ''ImageServer'' = Some 7"
proof -
  have run: "installService fair_env empty_system =
      \<lparr>install_error = None,
       install_system = \<lparr>services = [''ImageServer'' \<mapsto> new_registration ''C:/srv/image_server.exe''],
         eventlog = [''ImageServer'' \<mapsto> 7]\<rparr>,
       install_calls = [Call_eventlog_Remove ''ImageServer'', Call_os_Executable,
         Call_mgr_Connect, Call_OpenService ''ImageServer'',
         Call_CreateService ''ImageServer'' ''C:/srv/image_server.exe''
           (SvcConfig (new_registration ''C:/srv/image_server.exe'')) [''service''],
         Call_InstallAsEventCreate ''ImageServer'' 7, Call_Close, Call_Disconnect]\<rparr>"
    by (simp add: installService_def fair_env_def empty_system_def eventlog_Remove_def
        eventlog_InstallAsEventCreate_def new_registration_def eventlog_Error_def
        eventlog_Warning_def eventlog_Info_def Let_def del: strings_Contains.simps)
  have zero: "fst (manage_service_install fair_env empty_system) = 0"
    by (simp add: manage_service_install_fst main_install_fst run)
  have sys: "snd (manage_service_install fair_env empty_system) =
      \<lparr>services = [''ImageServer'' \<mapsto> (new_registration ''C:/srv/image_server.exe'')
          \<lparr>ResetPeriod := 86400, FailureActions := [Restart 60000, Restart 60000, Restart 60000]\<rparr>],
        eventlog = [''ImageServer'' \<mapsto> 7]\<rparr>"
    by (simp add: manage_service_install_snd main_install_fst main_install_snd run
        sc_failure_def sc_config_start_def new_registration_def)
  from install_registers_autostart_service [OF zero] zero sys
  show ?thesis by (simp add: new_registration_def)
qed

subsection \<open>Install over a registered service\<close>

text \<open>
  C9. When the service \<^verbatim>\<open>ImageServer\<close> is registered, \<^verbatim>\<open>installService\<close> returns
  an error, which is the already-exists error once the path of the executable
  is known and the service manager is connected; it does not call
  \<^verbatim>\<open>CreateService\<close> and leaves the registered services as they were, and so does
  the \<^verbatim>\<open>install\<close> command of the script, which ends with status 1.
\<close>

theorem install_refuses_registered_service:
  assumes "services sys ''ImageServer'' = Some reg"
  shows "install_error (installService env sys) \<noteq> None \<and>
         (\<forall>p. exe_path env = Inr p \<and> connect_error env = None \<longrightarrow>
            install_error (installService env sys) = Some ServiceAlreadyExists) \<and>
         services (install_system (installService env sys)) = services sys \<and>
         (\<forall>n p c a. Call_CreateService n p c a \<notin> set (install_calls (installService env sys))) \<and>
         fst (manage_service_install env sys) = 1 \<and>
         services (snd (manage_service_install env sys)) = services sys"
proof -
  note ex = installService_exists [OF assms, of env]
  have err: "install_error (installService env sys) \<noteq> None"
    unfolding ex(1) by (simp split: sum.splits option.splits)
  have already: "install_error (installService env sys) = Some ServiceAlreadyExists"
    if "exe_path env = Inr p" "connect_error env = None" for p
    unfolding ex(1) using that by simp
  have keep: "services (install_system (installService env sys)) = services sys"
    unfolding ex(2) by (rule eventlog_Remove_services)
  obtain ign sys1 where r: "eventlog_Remove (remove_denied env) ''ImageServer'' sys = (ign, sys1)"
    by (cases "eventlog_Remove (remove_denied env) ''ImageServer'' sys")
  from eventlog_Remove_services [of "remove_denied env" "''ImageServer''" sys] r assms
  have s: "services sys1 ''ImageServer'' = Some reg" by simp
  have nocreate: "Call_CreateService n p c a \<notin> set (install_calls (installService env sys))" for n p c a
    by (simp add: installService_def r s Let_def split: sum.splits option.splits)
  from err have one: "fst (manage_service_install env sys) = 1"
    by (auto simp: manage_service_install_fst main_install_fst split: option.splits)
  then have batch: "services (snd (manage_service_install env sys)) = services sys"
    using keep
    by (simp add: manage_service_install_snd manage_service_install_fst main_install_snd)
  from err already keep nocreate one batch show ?thesis by blast
qed

theorem install_refuses_registered_service_witness:
  "install_error (installService fair_env installed_system) = Some ServiceAlreadyExists \<and>
   services (install_system (installService fair_env installed_system)) ''ImageServer''
     = Some old_registration \<and>
   fst (manage_service_install fair_env installed_system) = 1"
proof -
  have a: "services installed_system ''ImageServer'' = Some old_registration"
    by (simp add: installed_system_def)
  have b: "exe_path fair_env = Inr ''C:/srv/image_server.exe'' \<and> connect_error fair_env = None"
    by (simp add: fair_env_def)
  from install_refuses_registered_service [OF a, of fair_env] a b show ?thesis by simp
qed

subsection \<open>The event-log source is removed first\<close>

text \<open>
  C10. Every run of \<^verbatim>\<open>installService\<close> starts with \<^verbatim>\<open>eventlog.Remove\<close> of the
  source \<^verbatim>\<open>ImageServer\<close>, before the service manager is connected and the
  service looked up. Where the registry lets the source be removed, every run
  that ends in an error leaves no such source; in particular, when the install
  fails because the service exists, the system afterwards is the system before
  without the source, and differs from it if the source was registered.
\<close>

theorem install_removes_event_source_first:
  "(\<exists>rest. install_calls (installService env sys) =
      Call_eventlog_Remove ''ImageServer'' # Call_os_Executable # rest \<and>
      Call_eventlog_Remove ''ImageServer'' \<notin> set rest) \<and>
   (\<forall>e. \<not> remove_denied env \<and> install_error (installService env sys) = Some e \<longrightarrow>
      eventlog (install_system (installService env sys)) ''ImageServer'' = None) \<and>
   (\<forall>reg p. \<not> remove_denied env \<and> services sys ''ImageServer'' = Some reg \<and>
      exe_path env = Inr p \<and> connect_error env = None \<longrightarrow>
      install_error (installService env sys) = Some ServiceAlreadyExists \<and>
      install_system (installService env sys) =
        sys\<lparr>eventlog := (eventlog sys)(''ImageServer'' := None)\<rparr> \<and>
      (eventlog sys ''ImageServer'' \<noteq> None \<longrightarrow> install_system (installService env sys) \<noteq> sys))"
proof -
  from installService_first_call [of env sys]
  have first: "\<exists>rest. install_calls (installService env sys) =
      Call_eventlog_Remove ''ImageServer'' # Call_os_Executable # rest \<and>
      Call_eventlog_Remove ''ImageServer'' \<notin> set rest"
    by blast
  have gone: "eventlog (install_system (installService env sys)) ''ImageServer'' = None"
    if "\<not> remove_denied env" "install_error (installService env sys) = Some e" for e
    using that by (simp add: installService_error_eventlog [OF that(2)] eventlog_Remove_eventlog)
  have exists: "install_error (installService env sys) = Some ServiceAlreadyExists \<and>
      install_system (installService env sys) =
        sys\<lparr>eventlog := (eventlog sys)(''ImageServer'' := None)\<rparr> \<and>
      (eventlog sys ''ImageServer'' \<noteq> None \<longrightarrow> install_system (installService env sys) \<noteq> sys)"
    if h: "\<not> remove_denied env" "services sys ''ImageServer'' = Some reg"
      "exe_path env = Inr p" "connect_error env = None" for reg p
  proof -
    note ex = installService_exists [OF h(2), of env]
    have a: "install_error (installService env sys) = Some ServiceAlreadyExists"
      unfolding ex(1) using h by simp
    have b: "install_system (installService env sys) =
        sys\<lparr>eventlog := (eventlog sys)(''ImageServer'' := None)\<rparr>"
    proof (cases "eventlog sys ''ImageServer''")
      case None
      then have "(eventlog sys)(''ImageServer'' := None) = eventlog sys" by (simp add: fun_upd_idem)
      then have "sys\<lparr>eventlog := (eventlog sys)(''ImageServer'' := None)\<rparr> = sys" by simp
      with None h(1) show ?thesis unfolding ex(2) by (simp add: eventlog_Remove_def)
    next
      case (Some ev)
      with h(1) show ?thesis unfolding ex(2) by (simp add: eventlog_Remove_def)
    qed
    have c: "install_system (installService env sys) \<noteq> sys" if "eventlog sys ''ImageServer'' \<noteq> None"
    proof
      assume "install_system (installService env sys) = sys"
      then have "eventlog (install_system (installService env sys)) ''ImageServer''
          = eventlog sys ''ImageServer''" by simp
      with b that show False by simp
    qed
    from a b c show ?thesis by blast
  qed
  from first gone exists show ?thesis by blast
qed

theorem install_removes_event_source_first_witness:
  "install_calls (installService fair_env installed_system) =
     [Call_eventlog_Remove ''ImageServer'', Call_os_Executable, Call_mgr_Connect,
      Call_OpenService ''ImageServer'', Call_Close, Call_Disconnect] \<and>
   install_error (installService fair_env installed_system) = Some ServiceAlreadyExists \<and>
   eventlog installed_system ''ImageServer'' = Some 7 \<and>
   eventlog (install_system (installService fair_env installed_system)) ''ImageServer'' = None \<and>
   install_system (installService fair_env installed_system) \<noteq> installed_system"
proof -
  have h: "\<not> remove_denied fair_env \<and>
      services installed_system ''ImageServer'' = Some old_registration \<and>
      exe_path fair_env = Inr ''C:/srv/image_server.exe'' \<and> connect_error fair_env = None"
    by (simp add: fair_env_def installed_system_def)
  have l: "eventlog installed_system ''ImageServer'' = Some 7"
    by (simp add: installed_system_def)
  have calls: "install_calls (installService fair_env installed_system) =
     [Call_eventlog_Remove ''ImageServer'', Call_os_Executable, Call_mgr_Connect,
      Call_OpenService ''ImageServer'', Call_Close, Call_Disconnect]"
    by (simp add: installService_def fair_env_def installed_system_def eventlog_Remove_def Let_def
        del: strings_Contains.simps)
  from install_removes_event_source_first [of fair_env installed_system] h
  have r: "install_error (installService fair_env installed_system) = Some ServiceAlreadyExists \<and>
      install_system (installService fair_env installed_system) =
        installed_system\<lparr>eventlog := (eventlog installed_system)(''ImageServer'' := None)\<rparr> \<and>
      (eventlog installed_system ''ImageServer'' \<noteq> None \<longrightarrow>
         install_system (installService fair_env installed_system) \<noteq> installed_system)"
    by blast
  from l have "eventlog installed_system ''ImageServer'' \<noteq> None" by simp
  with r have n: "install_system (installService fair_env installed_system) \<noteq> installed_system"
    by blast
  from r have g: "eventlog (install_system (installService fair_env installed_system)) ''ImageServer'' = None"
    by simp
  from r l n g calls show ?thesis by blast
qed

end
